theory Spec2Isabelle
  imports Main "HOL-Library.Word" "HOL-Library.Sublist"
begin

section \<open>JavaScript strings\<close>

text \<open>
  A JavaScript string is a sequence of 16-bit UTF-16 code units: \<open>length\<close>, \<open>slice\<close>,
  \<open>trim\<close>, \<open>includes\<close> and the regular expression classes \<open>\s\<close> and \<open>\S\<close> all work on
  code units. \<open>js\<close> embeds an ASCII literal.
\<close>

type_synonym code_unit = "16 word"
type_synonym jsstring = "code_unit list"

definition js :: "string \<Rightarrow> jsstring" where
  "js s = map (\<lambda>c. of_char c) s"

text \<open>
  The code units that \<open>String.prototype.trim\<close> strips and that \<open>\s\<close> matches: the
  WhiteSpace and LineTerminator productions of ECMAScript (TAB, LF, VT, FF, CR, SP, NBSP,
  U+1680, U+2000 to U+200A, U+2028, U+2029, U+202F, U+205F, U+3000 and U+FEFF).
\<close>

definition isSpace :: "code_unit \<Rightarrow> bool" where
  "isSpace c =
     (c = 0x09 \<or> c = 0x0A \<or> c = 0x0B \<or> c = 0x0C \<or> c = 0x0D \<or> c = 0x20 \<or> c = 0xA0
      \<or> c = 0x1680 \<or> (0x2000 \<le> c \<and> c \<le> 0x200A) \<or> c = 0x2028 \<or> c = 0x2029
      \<or> c = 0x202F \<or> c = 0x205F \<or> c = 0x3000 \<or> c = 0xFEFF)"

definition trim :: "jsstring \<Rightarrow> jsstring" where
  "trim s = rev (dropWhile isSpace (rev (dropWhile isSpace s)))"

text \<open>
  \<open>toLowerCase\<close> on the Basic Latin and Latin-1 ranges (A to Z, and U+00C0 to U+00DE without
  the multiplication sign U+00D7); other code units are left as they are. No code unit
  outside these ranges has a lower-case form among the letters of \<open>true\<close> and \<open>yes\<close>.
\<close>

definition lowerUnit :: "code_unit \<Rightarrow> code_unit" where
  "lowerUnit c =
     (if 0x41 \<le> c \<and> c \<le> 0x5A then c + 0x20
      else if 0xC0 \<le> c \<and> c \<le> 0xDE \<and> c \<noteq> 0xD7 then c + 0x20
      else c)"

definition toLowerCase :: "jsstring \<Rightarrow> jsstring" where
  "toLowerCase s = map lowerUnit s"

text \<open>\<open>s.includes(pat)\<close>: does \<open>pat\<close> start at some position of \<open>s\<close>?\<close>

fun includes_str :: "jsstring \<Rightarrow> jsstring \<Rightarrow> bool" where
  "includes_str [] pat = (pat = [])"
| "includes_str (c # cs) pat = (take (length pat) (c # cs) = pat \<or> includes_str cs pat)"

section \<open>routes/chat.ts: parseDecision\<close>

text \<open>
  \<^verbatim>\<open>const parseDecision = (raw: string): boolean => {
    const norm = raw.trim().toLowerCase();
    return norm === "true" || norm.includes("yes");
  };\<close>
\<close>

definition parseDecision :: "jsstring \<Rightarrow> bool" where
  "parseDecision raw =
     (let norm = toLowerCase (trim raw)
      in norm = js ''true'' \<or> includes_str norm (js ''yes''))"

section \<open>services/webSearch.ts: truncateSnippet\<close>

text \<open>
  \<open>matchesTail s\<close>: the whole of \<open>s\<close> matches \<open>\s+\S*$\<close>, that is, \<open>s\<close> is a non-empty run of
  white space followed by code units that are not white space, up to the end.
\<close>

definition matchesTail :: "jsstring \<Rightarrow> bool" where
  "matchesTail s = (s \<noteq> [] \<and> isSpace (hd s) \<and> \<not> list_ex isSpace (dropWhile isSpace s))"

text \<open>
  \<open>s.replace(/\s+\S*$/, "")\<close>: the pattern is not global, so the leftmost match is replaced.
  The start positions are tried from the left; a match runs to the end of the string, so
  what is left is the part before it. Without a match the string is returned as it is.
\<close>

fun replaceTail :: "jsstring \<Rightarrow> jsstring" where
  "replaceTail [] = []"
| "replaceTail (c # cs) = (if matchesTail (c # cs) then [] else c # replaceTail cs)"

text \<open>
  \<^verbatim>\<open>function truncateSnippet(text: string, maxChars: number): string {
    if (text.length <= maxChars) return text;
    return text.slice(0, maxChars).replace(/\s+\S*$/, "") + "...";
  }\<close>
  \<open>maxChars\<close> is a count of code units (the call site passes 300); for a count \<open>n\<close> below
  the length, \<open>text.slice(0, n)\<close> is \<open>take n text\<close>.
\<close>

definition truncateSnippet :: "jsstring \<Rightarrow> nat \<Rightarrow> jsstring" where
  "truncateSnippet text maxChars =
     (if length text \<le> maxChars then text
      else replaceTail (take maxChars text) @ js ''...'')"

section \<open>Errors and the decimal form of numbers\<close>

text \<open>
  A thrown \<open>Error\<close> object, with the properties the handlers read: \<open>err.message\<close>,
  \<open>err.code\<close> and, when the HTTP client attached a response, \<open>err.response\<close> with its
  \<open>status\<close> and the \<open>error\<close> member of its body (\<open>response.data.error\<close> as
  webSearch.ts reads it, \<open>response.data.error.message\<close> as llmGemini.ts reads it).
\<close>

record error_response =
  status :: int
  data_error :: "jsstring option"
  data_error_message :: "jsstring option"

record js_error =
  message :: jsstring
  code :: "jsstring option"
  response :: "error_response option"

definition newError :: "jsstring \<Rightarrow> js_error" where
  "newError msg = \<lparr>message = msg, code = None, response = None\<rparr>"

text \<open>\<open>a || b\<close> on optional strings: \<open>undefined\<close> and the empty string are falsy.\<close>

definition truthy :: "jsstring option \<Rightarrow> bool" where
  "truthy v = (case v of None \<Rightarrow> False | Some s \<Rightarrow> s \<noteq> [])"

definition or_else :: "jsstring option \<Rightarrow> jsstring \<Rightarrow> jsstring" where
  "or_else v d = (case v of None \<Rightarrow> d | Some s \<Rightarrow> if s = [] then d else s)"

text \<open>The decimal digits of a number, as a template literal prints it.\<close>

function decimal :: "nat \<Rightarrow> jsstring" where
  "decimal n = (if n < 10 then [of_nat (48 + n)] else decimal (n div 10) @ [of_nat (48 + n mod 10)])"
  by pat_completeness auto
termination
  by (relation "measure id") auto

declare decimal.simps [simp del]

definition numberToString :: "int \<Rightarrow> jsstring" where
  "numberToString i = (if i < 0 then js ''-'' @ decimal (nat (- i)) else decimal (nat i))"

text \<open>\<open>xs.join(sep)\<close>; \<open>undefined\<close> elements print as the empty string.\<close>

fun join :: "jsstring \<Rightarrow> jsstring option list \<Rightarrow> jsstring" where
  "join sep [] = []"
| "join sep [x] = or_else x []"
| "join sep (x # y # ys) = or_else x [] @ sep @ join sep (y # ys)"

section \<open>services/llmGemini.ts\<close>

text \<open>
  \<^verbatim>\<open>if (err.response?.status >= 500 || err.code === "ECONNABORTED")\<close>
\<close>

definition transient :: "js_error \<Rightarrow> bool" where
  "transient err =
     ((case response err of None \<Rightarrow> False | Some r \<Rightarrow> 500 \<le> status r)
      \<or> code err = Some (js ''ECONNABORTED''))"

text \<open>
  What a run of \<open>withRetry\<close> did: the value it returned (\<open>Inr\<close>) or threw (\<open>Inl\<close>, where
  \<open>None\<close> is \<open>undefined\<close>, the initial value of \<open>lastErr\<close>), the \<open>setTimeout\<close> delays it
  waited for, in milliseconds and in order, and how many times it called \<open>fn\<close>.
\<close>

record 'a retried =
  outcome :: "js_error option + 'a"
  delays :: "nat list"
  calls :: nat

text \<open>
  \<^verbatim>\<open>async function withRetry<T>(fn: () => Promise<T>, retries = 3): Promise<T> {
    let lastErr: any;
    for (let i = 0; i < retries; i++) {
      try {
        return await fn();
      } catch (err: any) {
        lastErr = err;
        if (err.response?.status >= 500 || err.code === "ECONNABORTED") {
          await new Promise((r) => setTimeout(r, 1000 * 2 ** i));
          continue;
        }
        throw err;
      }
    }
    throw lastErr!;
  }\<close>
  The operation \<open>fn\<close> is given by the outcome of each of its calls: \<open>fn i\<close> is what the call
  in iteration \<open>i\<close> settles to, \<open>Inr\<close> a value or \<open>Inl\<close> the error it rejects with. The loop
  calls \<open>fn\<close> once per iteration.
\<close>

function withRetry_loop ::
  "(nat \<Rightarrow> js_error + 'a) \<Rightarrow> nat \<Rightarrow> nat \<Rightarrow> js_error option \<Rightarrow> nat list \<Rightarrow> 'a retried" where
  "withRetry_loop fn retries i lastErr waited =
     (if i < retries then
        (case fn i of
           Inr v \<Rightarrow> \<lparr>outcome = Inr v, delays = waited, calls = Suc i\<rparr>
         | Inl err \<Rightarrow>
             if transient err
             then withRetry_loop fn retries (Suc i) (Some err) (waited @ [1000 * 2 ^ i])
             else \<lparr>outcome = Inl (Some err), delays = waited, calls = Suc i\<rparr>)
      else \<lparr>outcome = Inl lastErr, delays = waited, calls = i\<rparr>)"
  by pat_completeness auto
termination
  by (relation "measure (\<lambda>(fn, retries, i, lastErr, waited). retries - i)") auto

declare withRetry_loop.simps [simp del]

definition withRetry :: "(nat \<Rightarrow> js_error + 'a) \<Rightarrow> nat \<Rightarrow> 'a retried" where
  "withRetry fn retries = withRetry_loop fn retries 0 None []"

text \<open>The default of the parameter: \<open>retries = 3\<close>.\<close>

definition withRetry_default :: "(nat \<Rightarrow> js_error + 'a) \<Rightarrow> 'a retried" where
  "withRetry_default fn = withRetry fn 3"

text \<open>Call \<open>j\<close> of the operation rejects with an error that the wrapper classifies as transient.\<close>

definition failsTransiently :: "(nat \<Rightarrow> js_error + 'a) \<Rightarrow> nat \<Rightarrow> bool" where
  "failsTransiently fn j = (case fn j of Inl err \<Rightarrow> transient err | Inr v \<Rightarrow> False)"

text \<open>The backoff delays of iterations \<open>i\<close> up to \<open>j - 1\<close>: \<open>1000 * 2 ** i\<close> milliseconds each.\<close>

definition backoff :: "nat \<Rightarrow> nat \<Rightarrow> nat list" where
  "backoff i j = map (\<lambda>n. 1000 * 2 ^ n) [i..<j]"

section \<open>services/webSearch.ts\<close>

text \<open>
  \<open>encodeURIComponent\<close> (ECMAScript, Encode): an unreserved code unit is kept; any other
  code point is replaced by the \<open>%XX\<close> escapes of its UTF-8 bytes; a surrogate code unit
  that is not part of a pair (a low surrogate first, or a high surrogate not followed by a
  low one) throws a \<open>URIError\<close>.
\<close>

definition uriUnreserved :: "code_unit \<Rightarrow> bool" where
  "uriUnreserved c =
     ((0x41 \<le> c \<and> c \<le> 0x5A) \<or> (0x61 \<le> c \<and> c \<le> 0x7A) \<or> (0x30 \<le> c \<and> c \<le> 0x39)
      \<or> c \<in> set (js ''-_.!~*'()''))"

definition hexDigit :: "nat \<Rightarrow> code_unit" where
  "hexDigit d = (if d < 10 then of_nat (48 + d) else of_nat (55 + d))"

definition percent :: "nat \<Rightarrow> jsstring" where
  "percent b = [0x25, hexDigit (b div 16), hexDigit (b mod 16)]"

definition utf8 :: "nat \<Rightarrow> nat list" where
  "utf8 cp =
     (if cp < 0x80 then [cp]
      else if cp < 0x800 then [0xC0 + cp div 0x40, 0x80 + cp mod 0x40]
      else if cp < 0x10000 then
        [0xE0 + cp div 0x1000, 0x80 + cp div 0x40 mod 0x40, 0x80 + cp mod 0x40]
      else
        [0xF0 + cp div 0x40000, 0x80 + cp div 0x1000 mod 0x40, 0x80 + cp div 0x40 mod 0x40,
         0x80 + cp mod 0x40])"

definition isHighSurrogate :: "code_unit \<Rightarrow> bool" where
  "isHighSurrogate c = (0xD800 \<le> c \<and> c \<le> 0xDBFF)"

definition isLowSurrogate :: "code_unit \<Rightarrow> bool" where
  "isLowSurrogate c = (0xDC00 \<le> c \<and> c \<le> 0xDFFF)"

definition URIError :: js_error where
  "URIError = newError (js ''URI malformed'')"

fun encodeURIComponent :: "jsstring \<Rightarrow> js_error + jsstring" where
  "encodeURIComponent [] = Inr []"
| "encodeURIComponent (c # cs) =
     (if uriUnreserved c then map_sum id ((#) c) (encodeURIComponent cs)
      else if isLowSurrogate c then Inl URIError
      else if isHighSurrogate c then
        (case cs of
           [] \<Rightarrow> Inl URIError
         | d # ds \<Rightarrow>
             if isLowSurrogate d
             then map_sum id
                    ((@) (concat (map percent
                       (utf8 ((unat c - 0xD800) * 0x400 + (unat d - 0xDC00) + 0x10000)))))
                    (encodeURIComponent ds)
             else Inl URIError)
      else map_sum id ((@) (concat (map percent (utf8 (unat c))))) (encodeURIComponent cs))"

text \<open>
  The parts of the platform the services call and the repository does not define: the URL
  parser (\<open>new URL(url).hostname\<close>, \<open>None\<close> when the constructor throws), the number
  formatting of the server's locale (\<open>n.toLocaleString()\<close>) and the calendar
  (\<open>new Date(ms).toISOString().split("T")[0]\<close>).
\<close>

record platform =
  urlHostname :: "jsstring \<Rightarrow> jsstring option"
  toLocaleString :: "nat \<Rightarrow> jsstring"
  isoDate :: "int \<Rightarrow> jsstring"

text \<open>The environment: \<open>process.env.WEB_SEARCH_MODE\<close> and \<open>process.env.SEARCH_API_KEY\<close>.\<close>

record config =
  WEB_SEARCH_MODE :: "jsstring option"
  SEARCH_API_KEY :: "jsstring option"

text \<open>\<^verbatim>\<open>const MODE = process.env.WEB_SEARCH_MODE || "mock";\<close>\<close>

definition MODE :: "config \<Rightarrow> jsstring" where
  "MODE cfg = or_else (WEB_SEARCH_MODE cfg) (js ''mock'')"

record SearchResult =
  title :: jsstring
  link :: jsstring
  snippet :: jsstring
  date :: "jsstring option"
  source :: "jsstring option"

record SearchResponse =
  results :: "SearchResult list"
  totalResults :: nat
  query :: jsstring
  summary :: "jsstring option"

text \<open>
  The body of the provider's answer, \<open>resp.data\<close>: \<open>organic_results\<close> with the members of
  each entry the mapping reads, and \<open>search_information?.total_results\<close>.
\<close>

record organic_result =
  r_title :: "jsstring option"
  r_link :: "jsstring option"
  r_snippet :: "jsstring option"
  r_date :: "jsstring option"
  r_source :: "jsstring option"

record search_data =
  organic_results :: "organic_result list option"
  total_results :: "nat option"

text \<open>\<open>s.replace(pat, "")\<close> with a string pattern: the first occurrence is removed.\<close>

fun removeFirst :: "jsstring \<Rightarrow> jsstring \<Rightarrow> jsstring" where
  "removeFirst pat [] = []"
| "removeFirst pat (c # cs) =
     (if take (length pat) (c # cs) = pat then drop (length pat) (c # cs)
      else c # removeFirst pat cs)"

text \<open>
  \<^verbatim>\<open>function extractDomain(url: string): string | null {
    try {
      return new URL(url).hostname.replace("www.", "");
    } catch {
      return null;
    }
  }\<close>
  The argument is \<open>r.link\<close>, which may be missing; \<open>new URL(undefined)\<close> throws.
\<close>

definition extractDomain :: "platform \<Rightarrow> jsstring option \<Rightarrow> jsstring option" where
  "extractDomain pf url =
     (case url of
        None \<Rightarrow> None
      | Some u \<Rightarrow> map_option (removeFirst (js ''www.'')) (urlHostname pf u))"

text \<open>
  \<^verbatim>\<open>organic.slice(0, 10).map((r: any) => ({
    title: r.title || "Untitled",
    link: r.link || "#",
    snippet: truncateSnippet(r.snippet || "", 300),
    date: r.date || undefined,
    source: extractDomain(r.link) || r.source || "Unknown",
  }))\<close>
\<close>

definition mapResult :: "platform \<Rightarrow> organic_result \<Rightarrow> SearchResult" where
  "mapResult pf r =
     \<lparr>title = or_else (r_title r) (js ''Untitled''),
      link = or_else (r_link r) (js ''#''),
      snippet = truncateSnippet (or_else (r_snippet r) []) 300,
      date = (if truthy (r_date r) then r_date r else None),
      source = Some (or_else (extractDomain pf (r_link r)) (or_else (r_source r) (js ''Unknown'')))\<rparr>"

definition mockResults :: "SearchResult list" where
  "mockResults =
     [\<lparr>title = js ''State of AI Report 2025'',
       link = js ''https://www.stateof.ai/'',
       snippet = js ''The most trusted annual analysis of AI trends. Agentic AI, cost drops, and new regulations dominate 2025.'',
       date = Some (js ''2025-10-15''),
       source = Some (js ''State of AI Institute'')\<rparr>,
      \<lparr>title = js ''Stanford AI Index 2025'',
       link = js ''https://hai.stanford.edu/ai-index'',
       snippet = js ''AI boosts productivity by 40%. Inference costs down 280x since 2023. 1.2M AI jobs created.'',
       date = Some (js ''2025-04-10''),
       source = Some (js ''Stanford HAI'')\<rparr>,
      \<lparr>title = js ''Gemini 2.5 Flash Released'',
       link = js ''https://blog.google/technology/ai/gemini-2-5-flash/'',
       snippet = js ''Google's fastest model yet. 128K context, $0.35/M tokens. Free tier: 15 RPM.'',
       date = Some (js ''2025-06-20''),
       source = Some (js ''Google AI Blog'')\<rparr>]"

text \<open>
  \<^verbatim>\<open>const summary = results.length > 0
    ? `Found ${total.toLocaleString()} results. Top sources: ${results
        .slice(0, 3)
        .map((r) => r.source)
        .join(", ")}.`
    : "No results found.";\<close>
\<close>

definition summarize :: "platform \<Rightarrow> nat \<Rightarrow> SearchResult list \<Rightarrow> jsstring" where
  "summarize pf tot rs =
     (if 0 < length rs
      then js ''Found '' @ toLocaleString pf tot @ js '' results. Top sources: ''
           @ join (js '', '') (map source (take 3 rs)) @ js ''.''
      else js ''No results found.'')"

text \<open>
  \<open>webSearch\<close>. The request \<open>axios.get\<close> sends is given by what it settles to for the
  parameter \<open>q\<close>: \<open>Inr\<close> the body of the answer, \<open>Inl\<close> the error of a transport or HTTP
  failure. The first statement, \<open>encodeURIComponent(query.trim())\<close>, stands before the mode
  test and outside the \<open>try\<close> block, so what it throws rejects the promise \<open>webSearch\<close>
  returns (\<open>Inl\<close>). Logging is left out.
\<close>

definition webSearch ::
  "platform \<Rightarrow> config \<Rightarrow> (jsstring \<Rightarrow> js_error + search_data) \<Rightarrow> jsstring
   \<Rightarrow> js_error + SearchResponse" where
  "webSearch pf cfg get q =
     (case encodeURIComponent (trim q) of
        Inl err \<Rightarrow> Inl err
      | Inr safeQuery \<Rightarrow>
          if MODE cfg = js ''mock'' then
            Inr \<lparr>results = mockResults, totalResults = 3, query = q, summary = None\<rparr>
          else if \<not> truthy (SEARCH_API_KEY cfg) then
            Inr \<lparr>results = [], totalResults = 0, query = q,
                 summary = Some (js ''Search API key missing.'')\<rparr>
          else
            (case get safeQuery of
               Inr data \<Rightarrow>
                 let organic = (case organic_results data of None \<Rightarrow> [] | Some rs \<Rightarrow> rs);
                     tot = (case total_results data of None \<Rightarrow> 0 | Some n \<Rightarrow> n);
                     rs = map (mapResult pf) (take 10 organic)
                 in Inr \<lparr>results = rs, totalResults = tot, query = q,
                         summary = Some (summarize pf tot rs)\<rparr>
             | Inl err \<Rightarrow>
                 let msg = or_else (case response err of None \<Rightarrow> None | Some r \<Rightarrow> data_error r)
                             (message err)
                 in Inr \<lparr>results = [], totalResults = 0, query = q,
                         summary = Some (js ''Search failed: '' @ msg)\<rparr>))"

section \<open>services/llmGemini.ts: callGemini\<close>

text \<open>
  The body of the completion service's answer, \<open>resp.data\<close>, as \<open>callGemini\<close> reads it:
  \<open>data.candidates?.[0]?.content?.parts?.[0]?.text\<close>, \<open>None\<close> when a link of that chain
  is missing.
\<close>

record gemini_data =
  first_text :: "jsstring option"

text \<open>
  \<open>callGemini\<close>. The request \<open>axios.post\<close> sends for a prompt is given by what each of its
  attempts settles to. Both the error of \<open>withRetry\<close> and the \<open>Invalid Gemini response
  format\<close> error are thrown inside the \<open>try\<close> block and rethrown by its \<open>catch\<close> as
  \<open>LLM unavailable: ...\<close>. (With \<open>undefined\<close> thrown, which the budget of 3 excludes,
  reading \<open>err.response\<close> in the \<open>catch\<close> block is a \<open>TypeError\<close>.)
\<close>

definition callGemini ::
  "(jsstring \<Rightarrow> nat \<Rightarrow> js_error + gemini_data) \<Rightarrow> jsstring \<Rightarrow> js_error + jsstring" where
  "callGemini post prompt =
     (case (case outcome (withRetry_default (post prompt)) of
              Inl thrown \<Rightarrow> Inl thrown
            | Inr data \<Rightarrow>
                (case first_text data of
                   None \<Rightarrow> Inl (Some (newError (js ''Invalid Gemini response format'')))
                 | Some t \<Rightarrow>
                     if t = [] then Inl (Some (newError (js ''Invalid Gemini response format'')))
                     else Inr (trim t))) of
        Inr text \<Rightarrow> Inr text
      | Inl None \<Rightarrow>
          Inl (newError (js ''Cannot read properties of undefined (reading 'response')''))
      | Inl (Some err) \<Rightarrow>
          Inl (newError (js ''LLM unavailable: ''
                 @ or_else (case response err of None \<Rightarrow> None | Some r \<Rightarrow> data_error_message r)
                     (message err))))"

section \<open>routes/chat.ts\<close>

datatype event_type = Reasoning | Tool_call | Response | Error | Done

record StreamEvent =
  type :: event_type
  content :: "jsstring option"
  tool :: "jsstring option"
  input :: "jsstring option"
  output_val :: "SearchResponse option"

text \<open>The event \<open>{ type: t, content: c }\<close>.\<close>

definition event :: "event_type \<Rightarrow> jsstring \<Rightarrow> StreamEvent" where
  "event t c = \<lparr>type = t, content = Some c, tool = None, input = None, output_val = None\<rparr>"

text \<open>
  What the handler does to the response and to the two clients, in order: the trace of a
  request.
\<close>

datatype action =
    SetHeader jsstring jsstring
  | FlushHeaders
  | Write StreamEvent
  | Status nat
  | End
  | CallGemini jsstring
  | CallWebSearch jsstring

text \<open>
  \<^verbatim>\<open>const streamEvent = (res: Response, event: StreamEvent): void => {
    res.write(`data: ${JSON.stringify(event)}\n\n`);
    res.flushHeaders();
  };\<close>
\<close>

definition streamEvent :: "StreamEvent \<Rightarrow> action list" where
  "streamEvent e = [Write e, FlushHeaders]"

definition nl :: jsstring where
  "nl = [0x0A]"

text \<open>
  \<^verbatim>\<open>function formatForLLM(searchData: SearchResponse): string {
    if (!searchData || !searchData.results || searchData.results.length === 0) {
      return "No search results found.";
    }
    const lines = searchData.results.map((r, i) => {
      const date = r.date ? ` (${r.date})` : "";
      return `[${i + 1}] "${r.title}"\n    ${r.snippet}\n    -> ${r.link}${date} (via ${r.source})`;
    });
    return `Search results for "${searchData.query}" (${searchData.totalResults.toLocaleString()} total):\n\n${lines.join(
      "\n\n"
    )}\n\nUse [1], [2], etc. to cite sources inline.`;
  }\<close>
  (the arrow before the link is the code unit U+2192).
\<close>

definition formatLine :: "nat \<times> SearchResult \<Rightarrow> jsstring" where
  \<open>formatLine ir =
     (case ir of (i, r) \<Rightarrow>
        let d = (case date r of
                   None \<Rightarrow> []
                 | Some s \<Rightarrow> if s = [] then [] else js '' ('' @ s @ js '')'')
        in js ''['' @ decimal (i + 1) @ js ''] "'' @ title r @ js ''"'' @ nl
           @ js ''    '' @ snippet r @ nl
           @ js ''    '' @ [0x2192] @ js '' '' @ link r @ d
           @ js '' (via '' @ (case source r of None \<Rightarrow> js ''undefined'' | Some s \<Rightarrow> s) @ js '')'')\<close>

definition formatForLLM :: "platform \<Rightarrow> SearchResponse \<Rightarrow> jsstring" where
  \<open>formatForLLM pf searchData =
     (if length (results searchData) = 0 then js ''No search results found.''
      else js ''Search results for "'' @ query searchData @ js ''" (''
           @ toLocaleString pf (totalResults searchData) @ js '' total):'' @ nl @ nl
           @ join (nl @ nl) (map (Some \<circ> formatLine) (enumerate 0 (results searchData)))
           @ nl @ nl @ js ''Use [1], [2], etc. to cite sources inline.'')\<close>

text \<open>The two prompts; the bullet is U+2022 and the dash in \<open>3-5\<close> is U+2013.\<close>

definition decisionPrompt :: "jsstring \<Rightarrow> jsstring \<Rightarrow> jsstring" where
  \<open>decisionPrompt cutoffDate safeQuery =
     trim (nl
       @ js ''You are a binary classifier for tool usage. Answer **only** "true" or "false".'' @ nl
       @ nl
       @ js ''"true" if query needs real-time/post-'' @ cutoffDate @ js '' data:'' @ nl
       @ [0x2022] @ js '' Events after '' @ cutoffDate @ js '' (e.g., 2025 AI state)'' @ nl
       @ [0x2022] @ js '' Live stats (prices, weather, elections)'' @ nl
       @ [0x2022] @ js '' Recent changes (laws, releases)'' @ nl
       @ [0x2022] @ js '' System status'' @ nl
       @ nl
       @ js ''"false" otherwise (timeless facts, math, pre-'' @ cutoffDate @ js '', hypotheticals).'' @ nl
       @ nl
       @ js ''Query: """'' @ safeQuery @ js ''"""'' @ nl)\<close>

definition finalPrompt :: "jsstring \<Rightarrow> jsstring \<Rightarrow> bool \<Rightarrow> jsstring \<Rightarrow> jsstring" where
  \<open>finalPrompt today safeQuery needSearch searchResultsForPrompt =
     trim (nl
       @ js ''You are a concise, factual assistant. Current date: '' @ today @ js ''.'' @ nl
       @ js ''Query: """'' @ safeQuery @ js ''"""'' @ nl
       @ nl
       @ (if needSearch
          then js ''Search results (cite with [1], [2], etc.):'' @ nl @ searchResultsForPrompt @ nl
               @ js ''---''
          else []) @ nl
       @ nl
       @ js ''Respond in 3'' @ [0x2013] @ js ''5 sentences with detailed explanations. Be factual and comprehensive. Cite sources inline using [1], [2], etc. after relevant facts.'' @ nl)\<close>

text \<open>The parsed JSON body of the request; \<open>None\<close> is \<open>undefined\<close>.\<close>

datatype json =
    JNull
  | JBool bool
  | JNumber int
  | JString jsstring
  | JArray "json list"
  | JObject "(jsstring \<times> json) list"

text \<open>
  \<^verbatim>\<open>const { query } = req.body ?? {};\<close>
  Only an object can have a \<open>query\<close> member; on every other body the property read
  gives \<open>undefined\<close>.
\<close>

definition bodyQuery :: "json option \<Rightarrow> json option" where
  "bodyQuery body =
     (case body of
        Some (JObject members) \<Rightarrow> map_of members (js ''query'')
      | _ \<Rightarrow> None)"

text \<open>
  Step 4 and the metrics, lines 115 to 134. \<open>clock k\<close> is the \<open>k\<close>-th reading of the clock
  in the request: \<open>startTime\<close> is reading 0, the cutoff reading 1, the date of the final
  prompt reading 2 and the end of the run reading 3. The second component is the error
  that left the \<open>try\<close> block, if one did.
\<close>

definition synthesize ::
  "platform \<Rightarrow> (jsstring \<Rightarrow> nat \<Rightarrow> js_error + gemini_data) \<Rightarrow> (nat \<Rightarrow> int) \<Rightarrow> jsstring \<Rightarrow> bool
   \<Rightarrow> jsstring \<Rightarrow> action list \<times> js_error option" where
  "synthesize pf post clock safeQuery needSearch searchResultsForPrompt =
     (let prompt = finalPrompt (isoDate pf (clock 2)) safeQuery needSearch searchResultsForPrompt;
          refining = streamEvent (event Reasoning (js ''Refining answer...'')) @ [CallGemini prompt]
      in case callGemini post prompt of
           Inl err \<Rightarrow> (refining, Some err)
         | Inr answer \<Rightarrow>
             (refining
              @ streamEvent (event Response (or_else (Some answer) (js ''(no answer generated)'')))
              @ streamEvent (event Reasoning
                  (js ''Completed in '' @ numberToString (clock 3 - clock 0) @ js ''ms''))
              @ streamEvent \<lparr>type = Done, content = None, tool = None, input = None,
                             output_val = None\<rparr>,
              None))"

text \<open>Step 3, lines 99 to 113, when \<open>needSearch\<close> holds (the ellipsis is U+2026).\<close>

definition toolCall ::
  "platform \<Rightarrow> config \<Rightarrow> (jsstring \<Rightarrow> js_error + search_data) \<Rightarrow> jsstring
   \<Rightarrow> action list \<times> (js_error + jsstring)" where
  "toolCall pf cfg get safeQuery =
     (let searching = streamEvent (event Reasoning (js ''Searching the web'' @ [0x2026]))
                      @ [CallWebSearch safeQuery]
      in case webSearch pf cfg get safeQuery of
           Inl err \<Rightarrow> (searching, Inl err)
         | Inr searchData \<Rightarrow>
             (searching
              @ streamEvent \<lparr>type = Tool_call, content = None, tool = Some (js ''web_search''),
                             input = Some safeQuery, output_val = Some searchData\<rparr>,
              Inr (formatForLLM pf searchData)))"

text \<open>The \<open>try\<close> block, lines 64 to 134.\<close>

definition tryBlock ::
  "platform \<Rightarrow> config \<Rightarrow> (jsstring \<Rightarrow> nat \<Rightarrow> js_error + gemini_data)
   \<Rightarrow> (jsstring \<Rightarrow> js_error + search_data) \<Rightarrow> (nat \<Rightarrow> int) \<Rightarrow> jsstring
   \<Rightarrow> action list \<times> js_error option" where
  \<open>tryBlock pf cfg post get clock safeQuery =
     (let cutoffDate = isoDate pf (clock 1 - 6 * 30 * 24 * 60 * 60 * 1000);
          prompt = decisionPrompt cutoffDate safeQuery;
          deciding = streamEvent (event Reasoning (js ''Received: "'' @ safeQuery @ js ''"''))
                     @ streamEvent (event Reasoning (js ''Deciding if tool needed...''))
                     @ [CallGemini prompt]
      in case callGemini post prompt of
           Inl err \<Rightarrow> (deciding, Some err)
         | Inr decisionRaw \<Rightarrow>
             let needSearch = parseDecision decisionRaw;
                 decided = deciding
                   @ streamEvent (event Reasoning
                       (if needSearch then js ''Tool call required for fresh data.''
                        else js ''Internal knowledge sufficient.''))
             in if needSearch then
                  (case toolCall pf cfg get safeQuery of
                     (searched, Inl err) \<Rightarrow> (decided @ searched, Some err)
                   | (searched, Inr searchResultsForPrompt) \<Rightarrow>
                       (case synthesize pf post clock safeQuery needSearch searchResultsForPrompt of
                          (rest, thrown) \<Rightarrow> (decided @ searched @ rest, thrown)))
                else
                  (case synthesize pf post clock safeQuery needSearch [] of
                     (rest, thrown) \<Rightarrow> (decided @ rest, thrown)))\<close>

text \<open>
  The handler of \<open>POST /chat\<close>, lines 47 to 142: the headers, the validation of lines 54
  to 59, then the \<open>try\<close> block with its \<open>catch\<close> and \<open>finally\<close>. Every value thrown in
  the \<open>try\<close> block is an \<open>Error\<close> object, so the \<open>catch\<close> block reports \<open>err.message\<close>.
  Logging is left out.
\<close>

definition reject :: "action list" where
  "reject = streamEvent (event Error (js ''Valid 'query' string required'')) @ [Status 400, End]"

definition chat ::
  "platform \<Rightarrow> config \<Rightarrow> (jsstring \<Rightarrow> nat \<Rightarrow> js_error + gemini_data)
   \<Rightarrow> (jsstring \<Rightarrow> js_error + search_data) \<Rightarrow> (nat \<Rightarrow> int) \<Rightarrow> json option \<Rightarrow> action list" where
  "chat pf cfg post get clock body =
     [SetHeader (js ''Content-Type'') (js ''text/event-stream''),
      SetHeader (js ''Cache-Control'') (js ''no-cache, no-transform''),
      SetHeader (js ''Connection'') (js ''keep-alive''),
      FlushHeaders]
     @ (case bodyQuery body of
          Some (JString q) \<Rightarrow>
            if trim q = [] then reject
            else
              (case tryBlock pf cfg post get clock (trim q) of
                 (done, None) \<Rightarrow> done @ [End]
               | (done, Some err) \<Rightarrow>
                   done @ streamEvent (event Error (js ''Agent error: '' @ message err)) @ [End])
        | _ \<Rightarrow> reject)"

text \<open>The events written to the stream, in order, and the number of times it is closed.\<close>

fun written :: "action \<Rightarrow> StreamEvent list" where
  "written (Write e) = [e]"
| "written _ = []"

definition emitted :: "action list \<Rightarrow> StreamEvent list" where
  "emitted trace = concat (map written trace)"

definition closes :: "action list \<Rightarrow> nat" where
  "closes trace = count_list trace End"

definition toolCalls :: "action list \<Rightarrow> nat" where
  "toolCalls trace = length (filter (\<lambda>e. type e = Tool_call) (emitted trace))"

fun isClientCall :: "action \<Rightarrow> bool" where
  "isClientCall (CallGemini p) = True"
| "isClientCall (CallWebSearch s) = True"
| "isClientCall _ = False"

text \<open>
  The two calls of the completion client on the path without a search: the decision call
  and the synthesis call, with the prompts the \<open>try\<close> block builds for them.
\<close>

definition decisionCall ::
  "platform \<Rightarrow> (jsstring \<Rightarrow> nat \<Rightarrow> js_error + gemini_data) \<Rightarrow> (nat \<Rightarrow> int) \<Rightarrow> jsstring
   \<Rightarrow> js_error + jsstring" where
  "decisionCall pf post clock safeQuery =
     callGemini post
       (decisionPrompt (isoDate pf (clock 1 - 6 * 30 * 24 * 60 * 60 * 1000)) safeQuery)"

definition plainSynthesisCall ::
  "platform \<Rightarrow> (jsstring \<Rightarrow> nat \<Rightarrow> js_error + gemini_data) \<Rightarrow> (nat \<Rightarrow> int) \<Rightarrow> jsstring
   \<Rightarrow> js_error + jsstring" where
  "plainSynthesisCall pf post clock safeQuery =
     callGemini post (finalPrompt (isoDate pf (clock 2)) safeQuery False [])"

text \<open>
  The queries the validation of lines 54 to 59 is there to reject: a missing \<open>query\<close>, one
  that is not a string, the empty string and a string of white space only.
\<close>

definition blankQuery :: "json option \<Rightarrow> bool" where
  "blankQuery v = (case v of Some (JString q) \<Rightarrow> list_all isSpace q | _ \<Rightarrow> True)"

section \<open>Concrete inputs\<close>

text \<open>
  A platform in which no URL parses, numbers print as plain decimals and the date is
  fixed.
\<close>

definition plainPlatform :: platform where
  "plainPlatform =
     \<lparr>urlHostname = (\<lambda>u. None), toLocaleString = decimal,
      isoDate = (\<lambda>ms. js ''2025-01-01'')\<rparr>"

text \<open>
  Errors of the HTTP client: an answer with status 503, an answer with status 400 and a
  timeout (\<open>code\<close> \<open>ECONNABORTED\<close>, no response).
\<close>

definition serverError :: js_error where
  "serverError =
     \<lparr>message = js ''Request failed with status code 503'', code = Some (js ''ERR_BAD_RESPONSE''),
      response = Some \<lparr>status = 503, data_error = None, data_error_message = None\<rparr>\<rparr>"

definition clientError :: js_error where
  "clientError =
     \<lparr>message = js ''Request failed with status code 400'', code = Some (js ''ERR_BAD_REQUEST''),
      response = Some \<lparr>status = 400, data_error = None, data_error_message = None\<rparr>\<rparr>"

definition timeoutError :: js_error where
  "timeoutError =
     \<lparr>message = js ''timeout of 60000ms exceeded'', code = Some (js ''ECONNABORTED''),
      response = None\<rparr>"

text \<open>
  A connection failure: the peer reset the connection, so the error has the \<open>code\<close>
  \<open>ECONNRESET\<close> and no response. And an operation that fails with it at its first call and
  returns 7 at every later one.
\<close>

definition resetError :: js_error where
  "resetError =
     \<lparr>message = js ''read ECONNRESET'', code = Some (js ''ECONNRESET''), response = None\<rparr>"

definition resetThenValue :: "nat \<Rightarrow> js_error + nat" where
  "resetThenValue i = (if i = 0 then Inl resetError else Inr 7)"

text \<open>
  Live mode with a credential, and an answer of the provider with four results that have
  no link, so that each source is the \<open>source\<close> member the provider sent: \<open>a.com\<close>,
  \<open>a.com\<close>, \<open>b.com\<close> and \<open>c.com\<close>.
\<close>

definition liveConfig :: config where
  "liveConfig = \<lparr>WEB_SEARCH_MODE = Some (js ''live''), SEARCH_API_KEY = Some (js ''secret'')\<rparr>"

definition fromSource :: "jsstring \<Rightarrow> organic_result" where
  "fromSource s =
     \<lparr>r_title = Some (js ''News''), r_link = None, r_snippet = Some (js ''Text''), r_date = None,
      r_source = Some s\<rparr>"

definition fourResults :: search_data where
  "fourResults =
     \<lparr>organic_results = Some [fromSource (js ''a.com''), fromSource (js ''a.com''),
                               fromSource (js ''b.com''), fromSource (js ''c.com'')],
      total_results = Some 4\<rparr>"

text \<open>
  A completion service that answers every prompt with the same text at the first attempt,
  a search provider that answers every request with the same body, one that times out,
  and a clock that stands still.
\<close>

definition answering :: "jsstring \<Rightarrow> jsstring \<Rightarrow> nat \<Rightarrow> js_error + gemini_data" where
  "answering t prompt attempt = Inr \<lparr>first_text = Some t\<rparr>"

definition providing :: "search_data \<Rightarrow> jsstring \<Rightarrow> js_error + search_data" where
  "providing data q = Inr data"

definition unreachable :: "jsstring \<Rightarrow> js_error + search_data" where
  "unreachable q = Inl timeoutError"

definition stoppedClock :: "nat \<Rightarrow> int" where
  "stoppedClock k = 0"

definition queryBody :: "jsstring \<Rightarrow> json option" where
  "queryBody q = Some (JObject [(js ''query'', JString q)])"

section \<open>Strings: basic facts\<close>

lemma includes_iff: "includes_str s pat \<longleftrightarrow> (\<exists>u v. s = u @ pat @ v)"
proof (induction s)
  case Nil
  then show ?case by auto
next
  case (Cons c cs)
  show ?case
  proof
    assume "includes_str (c # cs) pat"
    then consider "take (length pat) (c # cs) = pat" | "includes_str cs pat" by auto
    then show "\<exists>u v. c # cs = u @ pat @ v"
    proof cases
      case 1
      then have "c # cs = [] @ pat @ drop (length pat) (c # cs)"
        by (metis append_Nil append_take_drop_id)
      then show ?thesis by blast
    next
      case 2
      with Cons.IH obtain u v where "cs = u @ pat @ v" by blast
      then have "c # cs = (c # u) @ pat @ v" by simp
      then show ?thesis by blast
    qed
  next
    assume "\<exists>u v. c # cs = u @ pat @ v"
    then obtain u v where uv: "c # cs = u @ pat @ v" by blast
    show "includes_str (c # cs) pat"
    proof (cases u)
      case Nil
      with uv have "take (length pat) (c # cs) = pat" by simp
      then show ?thesis by simp
    next
      case (Cons a u')
      with uv have "cs = u' @ pat @ v" by simp
      with Cons.IH have "includes_str cs pat" by blast
      then show ?thesis by simp
    qed
  qed
qed

section \<open>parseDecision: results\<close>

text \<open>
  C3. For every raw decision string \<open>s\<close>, \<open>parseDecision s\<close> is true if and only if the
  trimmed, lower-cased form of \<open>s\<close> equals \<open>true\<close> or contains \<open>yes\<close> as a substring; every
  other input yields false. In particular \<open>"  True "\<close> yields true, \<open>"false"\<close> yields false
  and the empty string yields false.
\<close>

theorem parseDecision_iff:
  "(parseDecision s \<longleftrightarrow>
      (toLowerCase (trim s) = js ''true'' \<or> (\<exists>u v. toLowerCase (trim s) = u @ js ''yes'' @ v)))
   \<and> parseDecision (js ''  True '') = True
   \<and> parseDecision (js ''false'') = False
   \<and> parseDecision (js '''') = False"
proof -
  have "parseDecision s \<longleftrightarrow>
      (toLowerCase (trim s) = js ''true'' \<or> (\<exists>u v. toLowerCase (trim s) = u @ js ''yes'' @ v))"
    by (simp add: parseDecision_def Let_def includes_iff)
  moreover have "parseDecision (js ''  True '') = True"
    by (simp add: parseDecision_def trim_def toLowerCase_def lowerUnit_def isSpace_def js_def)
  moreover have "parseDecision (js ''false'') = False"
    by (simp add: parseDecision_def trim_def toLowerCase_def lowerUnit_def isSpace_def js_def)
  moreover have "parseDecision (js '''') = False"
    by (simp add: parseDecision_def trim_def toLowerCase_def lowerUnit_def isSpace_def js_def)
  ultimately show ?thesis by blast
qed

text \<open>
  C4, as the claim states it, fails: \<open>parseDecision\<close> of \<open>"No, I don't think so"\<close> is not
  true.
\<close>

theorem parseDecision_no_counterexample:
  "\<not> parseDecision (js ''No, I don't think so'')"
  by (simp add: parseDecision_def trim_def toLowerCase_def lowerUnit_def isSpace_def js_def)

text \<open>
  C4, amended. The normal form of \<open>"No, I don't think so"\<close> is \<open>"no, i don't think so"\<close>; it
  is not \<open>true\<close> and \<open>yes\<close> does not occur in it, so \<open>parseDecision\<close> returns false.
\<close>

theorem parseDecision_no_false:
  "toLowerCase (trim (js ''No, I don't think so'')) = js ''no, i don't think so''
   \<and> toLowerCase (trim (js ''No, I don't think so'')) \<noteq> js ''true''
   \<and> includes_str (toLowerCase (trim (js ''No, I don't think so''))) (js ''yes'') = False
   \<and> parseDecision (js ''No, I don't think so'') = False"
  by (simp add: parseDecision_def trim_def toLowerCase_def lowerUnit_def isSpace_def js_def)

section \<open>truncateSnippet: results\<close>

lemma js_length: "length (js s) = length s"
  by (simp add: js_def)

lemma replaceTail_prefix: "prefix (replaceTail s) s"
  by (induction s) auto

lemma replaceTail_length: "length (replaceTail s) \<le> length s"
  by (induction s) auto

lemma replaceTail_no_space: "\<not> list_ex isSpace s \<Longrightarrow> replaceTail s = s"
  by (induction s) (auto simp: matchesTail_def)

lemma dropWhile_no_space: "\<not> list_ex isSpace s \<Longrightarrow> dropWhile isSpace s = s"
  by (cases s) auto

lemma matchesTail_cons_space: "isSpace c \<Longrightarrow> matchesTail cs \<Longrightarrow> matchesTail (c # cs)"
  by (simp add: matchesTail_def)

lemma matchesTail_last_space: "isSpace c \<Longrightarrow> \<not> list_ex isSpace cs \<Longrightarrow> matchesTail (c # cs)"
  by (simp add: matchesTail_def dropWhile_no_space)

lemma replaceTail_Nil: "replaceTail s = [] \<Longrightarrow> s \<noteq> [] \<Longrightarrow> matchesTail s"
  by (cases s) (auto split: if_splits)

text \<open>
  When the string has white space, the match starts at a white space code unit and what
  is left of it does not end in white space: the cut is at the start of the last run of
  white space.
\<close>

lemma replaceTail_space:
  "list_ex isSpace s \<Longrightarrow>
   \<exists>w v. s = replaceTail s @ w # v \<and> isSpace w \<and>
     (replaceTail s \<noteq> [] \<longrightarrow> \<not> isSpace (last (replaceTail s)))"
proof (induction s)
  case Nil
  then show ?case by simp
next
  case (Cons c cs)
  show ?case
  proof (cases "matchesTail (c # cs)")
    case True
    then show ?thesis by (auto simp: matchesTail_def)
  next
    case False
    have sp: "list_ex isSpace cs"
    proof (rule ccontr)
      assume n: "\<not> list_ex isSpace cs"
      with Cons.prems have "isSpace c" by simp
      with n False show False using matchesTail_last_space by blast
    qed
    with Cons.IH obtain w v where
      cs: "cs = replaceTail cs @ w # v" and w: "isSpace w" and
      l: "replaceTail cs \<noteq> [] \<longrightarrow> \<not> isSpace (last (replaceTail cs))" by blast
    have rt: "replaceTail (c # cs) = c # replaceTail cs" using False by simp
    have "c # cs = replaceTail (c # cs) @ w # v" using cs rt by simp
    moreover have "\<not> isSpace (last (replaceTail (c # cs)))"
    proof (cases "replaceTail cs = []")
      case True
      with cs have "cs \<noteq> []" by auto
      with True have "matchesTail cs" by (rule replaceTail_Nil)
      with False have "\<not> isSpace c" using matchesTail_cons_space by blast
      with True rt show ?thesis by simp
    next
      case False
      with l rt show ?thesis by simp
    qed
    ultimately show ?thesis using w by blast
  qed
qed

text \<open>
  C10. For every string \<open>s\<close> and cap \<open>c\<close>: if the length of \<open>s\<close> is at most \<open>c\<close>,
  \<open>truncateSnippet s c\<close> is \<open>s\<close> unchanged; otherwise the result is a prefix of \<open>s\<close>
  followed by \<open>...\<close>, of total length at most \<open>c + 3\<close>, and when the first \<open>c\<close> code units
  of \<open>s\<close> contain no white space that prefix is exactly those first \<open>c\<close> code units.
\<close>

theorem truncateSnippet_cases:
  "(length s \<le> c \<longrightarrow> truncateSnippet s c = s) \<and>
   (c < length s \<longrightarrow>
      (\<exists>p. truncateSnippet s c = p @ js ''...'' \<and> prefix p s
           \<and> length (truncateSnippet s c) \<le> c + 3
           \<and> (\<not> list_ex isSpace (take c s) \<longrightarrow> p = take c s)))"
proof (intro conjI impI)
  assume "length s \<le> c"
  then show "truncateSnippet s c = s" by (simp add: truncateSnippet_def)
next
  assume lt: "c < length s"
  let ?p = "replaceTail (take c s)"
  have eq: "truncateSnippet s c = ?p @ js ''...''"
    using lt by (simp add: truncateSnippet_def)
  have "prefix ?p (take c s)" by (rule replaceTail_prefix)
  then have pre: "prefix ?p s" using take_is_prefix prefix_order.trans by blast
  have "length ?p \<le> length (take c s)" by (rule replaceTail_length)
  then have len: "length (truncateSnippet s c) \<le> c + 3"
    using eq by (simp add: js_length)
  have "\<not> list_ex isSpace (take c s) \<longrightarrow> ?p = take c s"
    by (simp add: replaceTail_no_space)
  with eq pre len
  show "\<exists>p. truncateSnippet s c = p @ js ''...'' \<and> prefix p s
           \<and> length (truncateSnippet s c) \<le> c + 3
           \<and> (\<not> list_ex isSpace (take c s) \<longrightarrow> p = take c s)"
    by blast
qed

text \<open>C10 at \<open>"hi"\<close> with cap 5 and at \<open>"helloworld"\<close> with cap 4.\<close>

theorem truncateSnippet_cases_witness:
  "length (js ''hi'') \<le> 5 \<and> truncateSnippet (js ''hi'') 5 = js ''hi''
   \<and> 4 < length (js ''helloworld'') \<and> \<not> list_ex isSpace (take 4 (js ''helloworld''))
   \<and> truncateSnippet (js ''helloworld'') 4 = js ''hell...''
   \<and> length (truncateSnippet (js ''helloworld'') 4) \<le> 4 + 3"
  using truncateSnippet_cases [of "js ''hi''" 5] truncateSnippet_cases [of "js ''helloworld''" 4]
  by (simp add: js_def isSpace_def)

text \<open>
  C5, amended. For every input longer than the cap of 300, the snippet is a prefix of the
  input of at most 300 code units followed by the ellipsis marker \<open>...\<close>, so at most 303
  code units in all. When the first 300 code units contain white space, the prefix is
  shorter than 300, is followed by white space in the input and does not end in white
  space: it ends at a whitespace boundary and no word is split. When they contain none,
  the prefix is the first 300 code units.
\<close>

theorem truncateSnippet_300:
  "300 < length text \<Longrightarrow>
   \<exists>p. truncateSnippet text 300 = p @ js ''...'' \<and> prefix p text \<and> length p \<le> 300
     \<and> length (truncateSnippet text 300) \<le> 303
     \<and> (if list_ex isSpace (take 300 text)
        then length p < 300 \<and> isSpace (text ! length p) \<and> (p \<noteq> [] \<longrightarrow> \<not> isSpace (last p))
        else p = take 300 text)"
proof -
  assume lt: "300 < length text"
  let ?t = "take 300 text"
  let ?p = "replaceTail ?t"
  have eq: "truncateSnippet text 300 = ?p @ js ''...''"
    using lt by (simp add: truncateSnippet_def)
  have "prefix ?p ?t" by (rule replaceTail_prefix)
  then have pre: "prefix ?p text" using take_is_prefix prefix_order.trans by blast
  have "length ?p \<le> length ?t" by (rule replaceTail_length)
  then have lp: "length ?p \<le> 300" by simp
  then have len: "length (truncateSnippet text 300) \<le> 303"
    using eq by (simp add: js_length)
  have br: "if list_ex isSpace ?t
        then length ?p < 300 \<and> isSpace (text ! length ?p) \<and> (?p \<noteq> [] \<longrightarrow> \<not> isSpace (last ?p))
        else ?p = ?t"
  proof (cases "list_ex isSpace ?t")
    case True
    then obtain w v where t: "?t = ?p @ w # v" and w: "isSpace w"
      and l: "?p \<noteq> [] \<longrightarrow> \<not> isSpace (last ?p)"
      using replaceTail_space by blast
    have "length ?t = length ?p + Suc (length v)"
      by (subst t) simp
    moreover have "length ?t = 300" using lt by simp
    ultimately have sh: "length ?p < 300" by linarith
    have "?t ! length ?p = w" by (subst t) simp
    then have "text ! length ?p = w" using sh by simp
    with True sh w l show ?thesis by simp
  next
    case False
    then show ?thesis by (simp add: replaceTail_no_space)
  qed
  from eq pre lp len br show ?thesis by blast
qed

text \<open>C5, amended, at 200 times \<open>a\<close>, a space and 200 times \<open>b\<close>.\<close>

theorem truncateSnippet_300_witness:
  "300 < length (replicate 200 (0x61::code_unit) @ 0x20 # replicate 200 0x62)
   \<and> (\<exists>p. truncateSnippet (replicate 200 0x61 @ 0x20 # replicate 200 0x62) 300 = p @ js ''...''
         \<and> length p < 300)"
proof -
  have h: "300 < length (replicate 200 (0x61::code_unit) @ 0x20 # replicate 200 0x62)" by simp
  have s: "list_ex isSpace (take 300 (replicate 200 (0x61::code_unit) @ 0x20 # replicate 200 0x62))"
    by (simp add: isSpace_def)
  from truncateSnippet_300 [OF h] s show ?thesis using h by auto
qed

text \<open>
  C5, as the claim states it, fails at 301 times \<open>a\<close>: the snippet is the first 300 code
  units and \<open>...\<close>, 303 code units, more than the cap; and the content before the ellipsis
  ends between two \<open>a\<close>s, in the middle of the only word.
\<close>

theorem truncateSnippet_cap_counterexample:
  "300 < length (replicate 301 (0x61::code_unit))
   \<and> truncateSnippet (replicate 301 0x61) 300 = replicate 300 0x61 @ js ''...''
   \<and> length (truncateSnippet (replicate 301 0x61) 300) = 303
   \<and> \<not> isSpace (replicate 301 0x61 ! 299) \<and> \<not> isSpace (replicate 301 0x61 ! 300)"
proof -
  have "\<not> list_ex isSpace (take 300 (replicate 301 (0x61::code_unit)))"
    by (simp add: list_ex_iff isSpace_def)
  then have "truncateSnippet (replicate 301 0x61) 300 = replicate 300 0x61 @ js ''...''"
    by (simp add: truncateSnippet_def replaceTail_no_space)
  then show ?thesis by (simp add: js_length isSpace_def)
qed

section \<open>withRetry: results\<close>

lemma withRetry_loop_succeeds:
  "i + k < retries \<Longrightarrow> (\<forall>j<k. failsTransiently fn (i + j)) \<Longrightarrow> fn (i + k) = Inr v \<Longrightarrow>
   withRetry_loop fn retries i lastErr waited =
     \<lparr>outcome = Inr v, delays = waited @ backoff i (i + k), calls = Suc (i + k)\<rparr>"
proof (induction k arbitrary: i lastErr waited)
  case 0
  then show ?case by (simp add: withRetry_loop.simps backoff_def)
next
  case (Suc k)
  from Suc.prems(2) have "failsTransiently fn (i + 0)" by blast
  then obtain err where e: "fn i = Inl err" "transient err"
    by (auto simp: failsTransiently_def split: sum.splits)
  have a: "\<forall>j<k. failsTransiently fn (Suc i + j)" using Suc.prems(2) by auto
  have b: "Suc i + k < retries" and c: "fn (Suc i + k) = Inr v" using Suc.prems by auto
  have "withRetry_loop fn retries (Suc i) (Some err) (waited @ [1000 * 2 ^ i]) =
     \<lparr>outcome = Inr v, delays = (waited @ [1000 * 2 ^ i]) @ backoff (Suc i) (Suc i + k),
      calls = Suc (Suc i + k)\<rparr>"
    by (rule Suc.IH [OF b a c])
  moreover have "i < retries" using Suc.prems(1) by simp
  moreover have "backoff i (i + Suc k) = (1000 * 2 ^ i) # backoff (Suc i) (Suc i + k)"
    by (simp add: backoff_def upt_conv_Cons)
  ultimately show ?case using e by (subst withRetry_loop.simps) simp
qed

lemma withRetry_loop_fatal:
  "i + k < retries \<Longrightarrow> (\<forall>j<k. failsTransiently fn (i + j)) \<Longrightarrow> fn (i + k) = Inl e \<Longrightarrow>
   \<not> transient e \<Longrightarrow>
   withRetry_loop fn retries i lastErr waited =
     \<lparr>outcome = Inl (Some e), delays = waited @ backoff i (i + k), calls = Suc (i + k)\<rparr>"
proof (induction k arbitrary: i lastErr waited)
  case 0
  then show ?case by (simp add: withRetry_loop.simps backoff_def)
next
  case (Suc k)
  from Suc.prems(2) have "failsTransiently fn (i + 0)" by blast
  then obtain err where e: "fn i = Inl err" "transient err"
    by (auto simp: failsTransiently_def split: sum.splits)
  have a: "\<forall>j<k. failsTransiently fn (Suc i + j)" using Suc.prems(2) by auto
  have b: "Suc i + k < retries" and c: "fn (Suc i + k) = Inl e" using Suc.prems by auto
  have "withRetry_loop fn retries (Suc i) (Some err) (waited @ [1000 * 2 ^ i]) =
     \<lparr>outcome = Inl (Some e), delays = (waited @ [1000 * 2 ^ i]) @ backoff (Suc i) (Suc i + k),
      calls = Suc (Suc i + k)\<rparr>"
    by (rule Suc.IH [OF b a c Suc.prems(4)])
  moreover have "i < retries" using Suc.prems(1) by simp
  moreover have "backoff i (i + Suc k) = (1000 * 2 ^ i) # backoff (Suc i) (Suc i + k)"
    by (simp add: backoff_def upt_conv_Cons)
  ultimately show ?case using e by (subst withRetry_loop.simps) simp
qed

lemma withRetry_loop_exhausts:
  "(\<forall>j<k. failsTransiently fn (i + j)) \<Longrightarrow> fn (i + k) = Inl e \<Longrightarrow> transient e \<Longrightarrow>
   retries = Suc (i + k) \<Longrightarrow>
   withRetry_loop fn retries i lastErr waited =
     \<lparr>outcome = Inl (Some e), delays = waited @ backoff i retries, calls = retries\<rparr>"
proof (induction k arbitrary: i lastErr waited)
  case 0
  then have "withRetry_loop fn retries (Suc i) (Some e) (waited @ [1000 * 2 ^ i]) =
      \<lparr>outcome = Inl (Some e), delays = waited @ [1000 * 2 ^ i], calls = retries\<rparr>"
    by (subst withRetry_loop.simps) simp
  with 0 show ?case by (subst withRetry_loop.simps) (simp add: backoff_def)
next
  case (Suc k)
  from Suc.prems(1) have "failsTransiently fn (i + 0)" by blast
  then obtain err where e: "fn i = Inl err" "transient err"
    by (auto simp: failsTransiently_def split: sum.splits)
  have a: "\<forall>j<k. failsTransiently fn (Suc i + j)" using Suc.prems(1) by auto
  have b: "fn (Suc i + k) = Inl e" and c: "retries = Suc (Suc i + k)" using Suc.prems by auto
  have "withRetry_loop fn retries (Suc i) (Some err) (waited @ [1000 * 2 ^ i]) =
     \<lparr>outcome = Inl (Some e), delays = (waited @ [1000 * 2 ^ i]) @ backoff (Suc i) retries,
      calls = retries\<rparr>"
    by (rule Suc.IH [OF a b Suc.prems(3) c])
  moreover have "i < retries" using Suc.prems(4) by simp
  moreover have "backoff i retries = (1000 * 2 ^ i) # backoff (Suc i) retries"
    using Suc.prems(4) by (simp add: backoff_def upt_conv_Cons)
  ultimately show ?case using e by (subst withRetry_loop.simps) simp
qed

lemma withRetry_succeeds:
  "k < retries \<Longrightarrow> (\<forall>j<k. failsTransiently fn j) \<Longrightarrow> fn k = Inr v \<Longrightarrow>
   withRetry fn retries = \<lparr>outcome = Inr v, delays = backoff 0 k, calls = Suc k\<rparr>"
  using withRetry_loop_succeeds [of 0 k retries fn v None "[]"] by (simp add: withRetry_def)

lemma withRetry_fatal:
  "k < retries \<Longrightarrow> (\<forall>j<k. failsTransiently fn j) \<Longrightarrow> fn k = Inl e \<Longrightarrow> \<not> transient e \<Longrightarrow>
   withRetry fn retries = \<lparr>outcome = Inl (Some e), delays = backoff 0 k, calls = Suc k\<rparr>"
  using withRetry_loop_fatal [of 0 k retries fn e None "[]"] by (simp add: withRetry_def)

lemma withRetry_exhausts:
  "0 < retries \<Longrightarrow> (\<forall>j<retries. failsTransiently fn j) \<Longrightarrow>
   \<exists>e. fn (retries - 1) = Inl e \<and> transient e \<and>
     withRetry fn retries = \<lparr>outcome = Inl (Some e), delays = backoff 0 retries, calls = retries\<rparr>"
proof -
  assume r: "0 < retries" and all: "\<forall>j<retries. failsTransiently fn j"
  then have "failsTransiently fn (retries - 1)" by simp
  then obtain e where e: "fn (retries - 1) = Inl e" "transient e"
    by (auto simp: failsTransiently_def split: sum.splits)
  have "withRetry_loop fn retries 0 None [] =
     \<lparr>outcome = Inl (Some e), delays = [] @ backoff 0 retries, calls = retries\<rparr>"
    using all e r by (intro withRetry_loop_exhausts [where k = "retries - 1"]) auto
  with e show ?thesis by (simp add: withRetry_def)
qed

lemma backoff_3: "backoff 0 3 = [1000, 2000, 4000]"
  by (simp add: backoff_def upt_conv_Cons)

text \<open>
  C6, amended. A failure is transient when its response has a status of at least 500 or
  its \<open>code\<close> is \<open>ECONNABORTED\<close> (a timed-out or aborted request); every other failure,
  other connection failures among them, is not. With the default budget of 3: if the
  operation fails transiently \<open>k < 3\<close> times and then succeeds, \<open>withRetry\<close> returns the
  value after the \<open>k\<close> backoff delays \<open>1000 * 2 ^ i\<close> ms, \<open>i < k\<close>; if every attempt fails
  transiently, it uses up the budget and throws the last error; if an attempt fails with
  an error that is not transient, it throws that error with no delay after it and no
  further attempt.
\<close>

theorem withRetry_default_spec:
  "(k < 3 \<and> (\<forall>j<k. failsTransiently fn j) \<and> fn k = Inr v \<longrightarrow>
      withRetry_default fn = \<lparr>outcome = Inr v, delays = map (\<lambda>i. 1000 * 2 ^ i) [0..<k], calls = Suc k\<rparr>)
   \<and> ((\<forall>j<3. failsTransiently fn j) \<longrightarrow>
      (\<exists>e. fn 2 = Inl e \<and>
         withRetry_default fn = \<lparr>outcome = Inl (Some e), delays = [1000, 2000, 4000], calls = 3\<rparr>))
   \<and> (k < 3 \<and> (\<forall>j<k. failsTransiently fn j) \<and> fn k = Inl e \<and> \<not> transient e \<longrightarrow>
      withRetry_default fn =
        \<lparr>outcome = Inl (Some e), delays = map (\<lambda>i. 1000 * 2 ^ i) [0..<k], calls = Suc k\<rparr>)"
proof (intro conjI impI)
  assume "k < 3 \<and> (\<forall>j<k. failsTransiently fn j) \<and> fn k = Inr v"
  then show "withRetry_default fn =
      \<lparr>outcome = Inr v, delays = map (\<lambda>i. 1000 * 2 ^ i) [0..<k], calls = Suc k\<rparr>"
    using withRetry_succeeds [of k 3 fn v] by (simp add: withRetry_default_def backoff_def)
next
  assume "\<forall>j<3. failsTransiently fn j"
  then show "\<exists>e. fn 2 = Inl e \<and>
         withRetry_default fn = \<lparr>outcome = Inl (Some e), delays = [1000, 2000, 4000], calls = 3\<rparr>"
    using withRetry_exhausts [of 3 fn] by (auto simp: withRetry_default_def backoff_3)
next
  assume "k < 3 \<and> (\<forall>j<k. failsTransiently fn j) \<and> fn k = Inl e \<and> \<not> transient e"
  then show "withRetry_default fn =
        \<lparr>outcome = Inl (Some e), delays = map (\<lambda>i. 1000 * 2 ^ i) [0..<k], calls = Suc k\<rparr>"
    using withRetry_fatal [of k 3 fn e] by (simp add: withRetry_default_def backoff_def)
qed

lemma transient_examples:
  "transient serverError" "transient timeoutError" "\<not> transient clientError"
  by (simp_all add: transient_def serverError_def timeoutError_def clientError_def js_def)

text \<open>
  C6 at three operations: two 503 answers and then the value 7; a timeout at every call;
  one 503 answer and then a 400 answer.
\<close>

theorem withRetry_default_spec_witness:
  "withRetry_default (\<lambda>i. if i < 2 then Inl serverError else Inr (7::nat)) =
     \<lparr>outcome = Inr 7, delays = [1000, 2000], calls = 3\<rparr>
   \<and> withRetry_default (\<lambda>i. Inl timeoutError :: js_error + nat) =
     \<lparr>outcome = Inl (Some timeoutError), delays = [1000, 2000, 4000], calls = 3\<rparr>
   \<and> withRetry_default (\<lambda>i. if i < 1 then Inl serverError else Inl clientError :: js_error + nat) =
     \<lparr>outcome = Inl (Some clientError), delays = [1000], calls = 2\<rparr>"
proof -
  let ?f = "\<lambda>i::nat. if i < 2 then Inl serverError else Inr (7::nat)"
  let ?g = "\<lambda>i::nat. Inl timeoutError :: js_error + nat"
  let ?h = "\<lambda>i::nat. if i < 1 then Inl serverError else Inl clientError :: js_error + nat"
  have up: "[0..<2] = [0, Suc 0]" "[0..<1] = [0]" by (simp_all add: upt_conv_Cons)
  have f: "(2::nat) < 3 \<and> (\<forall>j<2. failsTransiently ?f j) \<and> ?f 2 = Inr 7"
    by (simp add: failsTransiently_def transient_examples)
  have g: "\<forall>j<3. failsTransiently ?g j"
    by (simp add: failsTransiently_def transient_examples)
  have h: "(1::nat) < 3 \<and> (\<forall>j<1. failsTransiently ?h j) \<and> ?h 1 = Inl clientError
      \<and> \<not> transient clientError"
    by (simp add: failsTransiently_def transient_examples)
  from f withRetry_default_spec [of 2 ?f 7]
  have "withRetry_default ?f = \<lparr>outcome = Inr 7, delays = [1000, 2000], calls = 3\<rparr>"
    by (simp add: up)
  moreover from g withRetry_default_spec [of _ ?g]
  have "withRetry_default ?g =
      \<lparr>outcome = Inl (Some timeoutError), delays = [1000, 2000, 4000], calls = 3\<rparr>"
    by auto
  moreover from h withRetry_default_spec [of 1 ?h _ clientError]
  have "withRetry_default ?h = \<lparr>outcome = Inl (Some clientError), delays = [1000], calls = 2\<rparr>"
    by (simp add: up)
  ultimately show ?thesis by blast
qed

text \<open>
  C6, as the claim states it, fails at an operation whose first call fails with a
  connection failure, \<open>ECONNRESET\<close>, and whose second call would return 7: the claim counts
  a connection failure as transient and promises the value 7 after one delay of 1000 ms,
  but the wrapper throws the error at once, after one call and no delay.
\<close>

theorem withRetry_connection_counterexample:
  "resetThenValue 0 = Inl resetError \<and> resetThenValue 1 = Inr 7
   \<and> code resetError = Some (js ''ECONNRESET'') \<and> response resetError = None
   \<and> transient resetError = False
   \<and> withRetry_default resetThenValue =
       \<lparr>outcome = Inl (Some resetError), delays = [], calls = 1\<rparr>
   \<and> withRetry_default resetThenValue \<noteq> \<lparr>outcome = Inr 7, delays = [1000], calls = 2\<rparr>"
proof -
  have n: "\<not> transient resetError"
    by (simp add: transient_def resetError_def js_def)
  have "withRetry resetThenValue 3 =
      \<lparr>outcome = Inl (Some resetError), delays = backoff 0 0, calls = Suc 0\<rparr>"
    by (rule withRetry_fatal) (simp_all add: resetThenValue_def n)
  then have "withRetry_default resetThenValue =
      \<lparr>outcome = Inl (Some resetError), delays = [], calls = 1\<rparr>"
    by (simp add: withRetry_default_def backoff_def)
  with n show ?thesis by (simp add: resetThenValue_def resetError_def)
qed

section \<open>webSearch: results\<close>

lemma set_trim: "set (trim q) \<subseteq> set q"
proof -
  have "set (trim q) \<subseteq> set (dropWhile isSpace q)"
    unfolding trim_def using set_dropWhileD by fastforce
  also have "\<dots> \<subseteq> set q" using set_dropWhileD by fastforce
  finally show ?thesis .
qed

lemma encodeURIComponent_no_surrogates:
  "\<forall>c\<in>set s. \<not> isHighSurrogate c \<and> \<not> isLowSurrogate c \<Longrightarrow> \<exists>t. encodeURIComponent s = Inr t"
proof (induction s)
  case Nil
  then show ?case by simp
next
  case (Cons c cs)
  then obtain t where "encodeURIComponent cs = Inr t" by auto
  with Cons.prems show ?case by simp
qed

lemma webSearch_returns:
  "encodeURIComponent (trim q) = Inr s \<Longrightarrow> \<exists>r. webSearch pf cfg get q = Inr r"
  by (simp add: webSearch_def Let_def split: sum.splits)

lemma webSearch_returns_no_surrogates:
  "\<forall>c\<in>set q. \<not> isHighSurrogate c \<and> \<not> isLowSurrogate c \<Longrightarrow> \<exists>r. webSearch pf cfg get q = Inr r"
proof -
  assume a: "\<forall>c\<in>set q. \<not> isHighSurrogate c \<and> \<not> isLowSurrogate c"
  have "\<forall>c\<in>set (trim q). \<not> isHighSurrogate c \<and> \<not> isLowSurrogate c"
    using a set_trim by blast
  then obtain s where "encodeURIComponent (trim q) = Inr s"
    using encodeURIComponent_no_surrogates by blast
  then show ?thesis by (rule webSearch_returns)
qed

lemma webSearch_key_missing:
  "encodeURIComponent (trim q) = Inr s \<Longrightarrow> MODE cfg \<noteq> js ''mock'' \<Longrightarrow>
   \<not> truthy (SEARCH_API_KEY cfg) \<Longrightarrow>
   webSearch pf cfg get q =
     Inr \<lparr>results = [], totalResults = 0, query = q, summary = Some (js ''Search API key missing.'')\<rparr>"
  by (simp add: webSearch_def)

lemma webSearch_request_fails:
  "encodeURIComponent (trim q) = Inr s \<Longrightarrow> MODE cfg \<noteq> js ''mock'' \<Longrightarrow>
   truthy (SEARCH_API_KEY cfg) \<Longrightarrow> get s = Inl err \<Longrightarrow>
   \<exists>msg. webSearch pf cfg get q =
     Inr \<lparr>results = [], totalResults = 0, query = q, summary = Some (js ''Search failed: '' @ msg)\<rparr>"
  by (simp add: webSearch_def Let_def)

lemma encode_lone_surrogate: "encodeURIComponent (trim [0xD800]) = Inl URIError"
  by (simp add: trim_def isSpace_def uriUnreserved_def isLowSurrogate_def isHighSurrogate_def js_def)

text \<open>
  C7. \<open>webSearch\<close> is never to pass a failure on to its caller. At the query \<open>"\uD800"\<close>,
  one unpaired high surrogate, it does, in every mode and with or without a credential:
  \<open>encodeURIComponent\<close> throws a \<open>URIError\<close> in the first statement, before the mode
  test and outside the \<open>try\<close> block.
\<close>

theorem webSearch_lone_surrogate:
  "webSearch pf cfg get [0xD800] = Inl URIError"
  by (simp add: webSearch_def encode_lone_surrogate)

text \<open>
  C9, amended. In live mode with a credential, for every answer of the provider with at
  least one result, the summary is \<open>Found N results. Top sources: S.\<close> where \<open>N\<close> is the
  total count the provider reported, in the locale's format, and \<open>S\<close> lists the sources of
  the first three results (of all of them when there are fewer), in their order and
  separated by a comma and a space; a source that occurs twice among them is listed twice.
\<close>

theorem webSearch_summary:
  assumes "encodeURIComponent (trim q) = Inr s"
    and "MODE cfg \<noteq> js ''mock''"
    and "truthy (SEARCH_API_KEY cfg)"
    and "get s = Inr data"
    and "organic_results data = Some rs"
    and "rs \<noteq> []"
  shows "\<exists>r. webSearch pf cfg get q = Inr r
           \<and> results r = map (mapResult pf) (take 10 rs) \<and> results r \<noteq> []
           \<and> totalResults r = (case total_results data of None \<Rightarrow> 0 | Some n \<Rightarrow> n)
           \<and> summary r =
               Some (js ''Found '' @ toLocaleString pf (totalResults r)
                     @ js '' results. Top sources: ''
                     @ join (js '', '') (map source (take 3 (results r))) @ js ''.'')"
  using assms by (simp add: webSearch_def Let_def summarize_def)

lemma encode_news: "encodeURIComponent (trim (js ''news'')) = Inr (js ''news'')"
  by (simp add: trim_def isSpace_def uriUnreserved_def js_def)

lemma live_config: "MODE liveConfig \<noteq> js ''mock''" "truthy (SEARCH_API_KEY liveConfig)"
  by (simp_all add: MODE_def or_else_def truthy_def liveConfig_def js_def)

lemma mapResult_fromSource:
  "mapResult plainPlatform (fromSource s) =
     \<lparr>title = js ''News'', link = js ''#'', snippet = js ''Text'', date = None,
      source = Some (or_else (Some s) (js ''Unknown''))\<rparr>"
  by (simp add: mapResult_def fromSource_def plainPlatform_def extractDomain_def or_else_def
      truthy_def truncateSnippet_def js_def)

lemma live_run:
  "webSearch plainPlatform liveConfig (providing fourResults) (js ''news'') =
     Inr \<lparr>results = map (mapResult plainPlatform)
                      [fromSource (js ''a.com''), fromSource (js ''a.com''),
                       fromSource (js ''b.com''), fromSource (js ''c.com'')],
          totalResults = 4, query = js ''news'',
          summary = Some (js ''Found 4 results. Top sources: a.com, a.com, b.com.'')\<rparr>"
proof -
  have "summarize plainPlatform 4
          (map (mapResult plainPlatform)
             [fromSource (js ''a.com''), fromSource (js ''a.com''),
              fromSource (js ''b.com''), fromSource (js ''c.com'')]) =
        js ''Found 4 results. Top sources: a.com, a.com, b.com.''"
    by (simp add: summarize_def mapResult_fromSource)
       (simp add: plainPlatform_def decimal.simps or_else_def js_def)
  then show ?thesis
    using live_config by (simp add: webSearch_def encode_news Let_def fourResults_def providing_def)
qed

text \<open>
  C9, as the claim states it, fails when the provider's results have the sources \<open>a.com\<close>,
  \<open>a.com\<close>, \<open>b.com\<close> and \<open>c.com\<close>: the first three distinct sources are \<open>a.com\<close>, \<open>b.com\<close>
  and \<open>c.com\<close>, but the summary lists \<open>a.com\<close> twice and does not name \<open>c.com\<close>.
\<close>

theorem webSearch_summary_counterexample:
  "isl (webSearch plainPlatform liveConfig (providing fourResults) (js ''news'')) = False
   \<and> map source (results (projr (webSearch plainPlatform liveConfig (providing fourResults) (js ''news''))))
       = [Some (js ''a.com''), Some (js ''a.com''), Some (js ''b.com''), Some (js ''c.com'')]
   \<and> summary (projr (webSearch plainPlatform liveConfig (providing fourResults) (js ''news'')))
       = Some (js ''Found 4 results. Top sources: a.com, a.com, b.com.'')
   \<and> includes_str (js ''Found 4 results. Top sources: a.com, a.com, b.com.'') (js ''c.com'') = False"
proof -
  have "includes_str (js ''Found 4 results. Top sources: a.com, a.com, b.com.'') (js ''c.com'') = False"
    by (simp add: js_def)
  moreover have "map source (map (mapResult plainPlatform)
                      [fromSource (js ''a.com''), fromSource (js ''a.com''),
                       fromSource (js ''b.com''), fromSource (js ''c.com'')])
       = [Some (js ''a.com''), Some (js ''a.com''), Some (js ''b.com''), Some (js ''c.com'')]"
    by (simp add: mapResult_fromSource) (simp add: or_else_def js_def)
  ultimately show ?thesis by (simp add: live_run)
qed

text \<open>C9, amended, at the same answer of the provider.\<close>

theorem webSearch_summary_witness:
  "encodeURIComponent (trim (js ''news'')) = Inr (js ''news'')
   \<and> MODE liveConfig \<noteq> js ''mock'' \<and> truthy (SEARCH_API_KEY liveConfig)
   \<and> organic_results fourResults \<noteq> Some []
   \<and> (\<exists>r. webSearch plainPlatform liveConfig (providing fourResults) (js ''news'') = Inr r
         \<and> length (results r) = 4
         \<and> summary r = Some (js ''Found '' @ toLocaleString plainPlatform (totalResults r)
                     @ js '' results. Top sources: ''
                     @ join (js '', '') (map source (take 3 (results r))) @ js ''.''))"
proof -
  have o: "organic_results fourResults =
      Some [fromSource (js ''a.com''), fromSource (js ''a.com''),
            fromSource (js ''b.com''), fromSource (js ''c.com'')]"
    by (simp add: fourResults_def)
  have g: "providing fourResults (js ''news'') = Inr fourResults" by (simp add: providing_def)
  from webSearch_summary [where get = "providing fourResults" and pf = plainPlatform,
      OF encode_news live_config(1) live_config(2) g o]
  show ?thesis using encode_news live_config o by auto
qed

section \<open>The chat handler: results\<close>

lemma trim_Nil_iff: "trim q = [] \<longleftrightarrow> list_all isSpace q"
proof
  assume "trim q = []"
  then have "\<forall>c\<in>set (dropWhile isSpace q). isSpace c"
    by (simp add: trim_def dropWhile_eq_Nil_conv)
  then have "dropWhile isSpace q = []"
    using hd_dropWhile [of isSpace q] hd_in_set [of "dropWhile isSpace q"] by blast
  then show "list_all isSpace q"
    by (simp add: dropWhile_eq_Nil_conv list_all_iff)
next
  assume "list_all isSpace q"
  then have "\<forall>c\<in>set q. isSpace c" by (simp add: list_all_iff)
  then have d: "dropWhile isSpace q = []" by (simp only: dropWhile_eq_Nil_conv)
  show "trim q = []" unfolding trim_def d by simp
qed

lemma emitted_append: "emitted (a @ b) = emitted a @ emitted b"
  by (simp add: emitted_def)

lemma emitted_streamEvent: "emitted (streamEvent e) = [e]"
  by (simp add: emitted_def streamEvent_def)

lemma emitted_Cons:
  "emitted (Write e # a) = e # emitted a"
  "emitted (SetHeader n v # a) = emitted a"
  "emitted (FlushHeaders # a) = emitted a"
  "emitted (Status k # a) = emitted a"
  "emitted (End # a) = emitted a"
  "emitted (CallGemini p # a) = emitted a"
  "emitted (CallWebSearch s # a) = emitted a"
  "emitted [] = []"
  by (simp_all add: emitted_def)

lemma closes_append: "closes (a @ b) = closes a + closes b"
  by (simp add: closes_def)

lemma closes_streamEvent: "closes (streamEvent e) = 0"
  by (simp add: closes_def streamEvent_def)

lemma closes_call:
  "closes (CallGemini p # a) = closes a"
  "closes (CallWebSearch s # a) = closes a"
  "closes (Write e # a) = closes a"
  "closes (FlushHeaders # a) = closes a"
  "closes (SetHeader n v # a) = closes a"
  "closes (Status k # a) = closes a"
  "closes (End # a) = Suc (closes a)"
  "closes [] = 0"
  by (simp_all add: closes_def)

lemma toolCalls_append: "toolCalls (a @ b) = toolCalls a + toolCalls b"
  by (simp add: toolCalls_def emitted_append)

lemma toolCalls_streamEvent: "toolCalls (streamEvent e) = (if type e = Tool_call then 1 else 0)"
  by (simp add: toolCalls_def emitted_streamEvent)

lemma toolCalls_call:
  "toolCalls (CallGemini p # a) = toolCalls a"
  "toolCalls (CallWebSearch s # a) = toolCalls a"
  "toolCalls (Write e # a) = (if type e = Tool_call then Suc (toolCalls a) else toolCalls a)"
  "toolCalls (FlushHeaders # a) = toolCalls a"
  "toolCalls (SetHeader n v # a) = toolCalls a"
  "toolCalls (Status k # a) = toolCalls a"
  "toolCalls (End # a) = toolCalls a"
  "toolCalls [] = 0"
  by (simp_all add: toolCalls_def emitted_def)

lemma synthesize_closes: "closes (fst (synthesize pf post clock q ns txt)) = 0"
  by (simp add: synthesize_def Let_def closes_append closes_streamEvent closes_call
      split: sum.splits)

lemma synthesize_toolCalls: "toolCalls (fst (synthesize pf post clock q ns txt)) = 0"
  by (simp add: synthesize_def Let_def toolCalls_append toolCalls_streamEvent toolCalls_call
      event_def split: sum.splits)

lemma toolCall_closes: "closes (fst (toolCall pf cfg get q)) = 0"
  by (simp add: toolCall_def Let_def closes_append closes_streamEvent closes_call
      split: sum.splits)

lemma toolCall_toolCalls:
  "toolCalls (fst (toolCall pf cfg get q)) = (if isl (webSearch pf cfg get q) then 0 else 1)"
  by (simp add: toolCall_def Let_def toolCalls_append toolCalls_streamEvent toolCalls_call
      event_def split: sum.splits)

lemma toolCall_thrown:
  "isl (snd (toolCall pf cfg get q)) = isl (webSearch pf cfg get q)"
  by (simp add: toolCall_def Let_def split: sum.splits)

lemma tryBlock_closes: "closes (fst (tryBlock pf cfg post get clock q)) = 0"
proof -
  show ?thesis
    using synthesize_closes [of pf post clock q] toolCall_closes [of pf cfg get q]
    by (simp add: tryBlock_def Let_def case_prod_beta closes_append closes_streamEvent
        closes_call split: sum.splits)
qed

text \<open>
  The number of \<open>tool_call\<close> events of the \<open>try\<close> block: one when the decision call
  returns a text that \<open>parseDecision\<close> accepts and \<open>webSearch\<close> returns, none otherwise.
\<close>

lemma tryBlock_toolCalls:
  "toolCalls (fst (tryBlock pf cfg post get clock q)) =
     (case decisionCall pf post clock q of
        Inl err \<Rightarrow> 0
      | Inr raw \<Rightarrow> if parseDecision raw \<and> \<not> isl (webSearch pf cfg get q) then 1 else 0)"
proof -
  have e: "toolCalls (streamEvent (event Reasoning s)) = 0" for s
    by (simp add: toolCalls_streamEvent event_def)
  show ?thesis
    using synthesize_toolCalls [of pf post clock q] toolCall_toolCalls [of pf cfg get q]
      toolCall_thrown [of pf cfg get q]
    by (auto simp: tryBlock_def decisionCall_def Let_def case_prod_beta toolCalls_append
        toolCalls_call e split: sum.splits)
qed

lemma chat_closes_once: "closes (chat pf cfg post get clock body) = 1"
proof -
  have r: "closes reject = 1"
    by (simp add: reject_def closes_append closes_streamEvent closes_call)
  have t: "closes (case tryBlock pf cfg post get clock q of
                    (done, None) \<Rightarrow> done @ [End]
                  | (done, Some err) \<Rightarrow>
                      done @ streamEvent (event Error (js ''Agent error: '' @ message err)) @ [End]) = 1"
    for q
    using tryBlock_closes [of pf cfg post get clock q]
    by (simp add: case_prod_beta closes_append closes_streamEvent closes_call split: option.splits)
  show ?thesis
    by (simp add: chat_def closes_append closes_call r t split: option.splits json.splits)
qed

lemma chat_last_End: "last (chat pf cfg post get clock body) = End"
  by (simp add: chat_def reject_def streamEvent_def case_prod_beta
      split: option.splits json.splits)

lemma chat_toolCalls:
  "toolCalls (chat pf cfg post get clock body) =
     (case bodyQuery body of
        Some (JString q) \<Rightarrow>
          if trim q = [] then 0 else toolCalls (fst (tryBlock pf cfg post get clock (trim q)))
      | _ \<Rightarrow> 0)"
proof -
  have r: "toolCalls reject = 0"
    by (simp add: reject_def toolCalls_append toolCalls_streamEvent toolCalls_call event_def)
  have t: "toolCalls (case tryBlock pf cfg post get clock q of
                    (done, None) \<Rightarrow> done @ [End]
                  | (done, Some err) \<Rightarrow>
                      done @ streamEvent (event Error (js ''Agent error: '' @ message err)) @ [End])
           = toolCalls (fst (tryBlock pf cfg post get clock q))"
    for q
    by (simp add: case_prod_beta toolCalls_append toolCalls_streamEvent toolCalls_call event_def
        split: option.splits)
  show ?thesis
    by (simp add: chat_def toolCalls_append toolCalls_call r t split: option.splits json.splits)
qed

lemma chat_toolCalls_le_1: "toolCalls (chat pf cfg post get clock body) \<le> 1"
  by (simp add: chat_toolCalls tryBlock_toolCalls split: option.splits json.splits sum.splits)

lemma chat_blank:
  "blankQuery (bodyQuery body) \<Longrightarrow>
   chat pf cfg post get clock body =
     [SetHeader (js ''Content-Type'') (js ''text/event-stream''),
      SetHeader (js ''Cache-Control'') (js ''no-cache, no-transform''),
      SetHeader (js ''Connection'') (js ''keep-alive''),
      FlushHeaders,
      Write (event Error (js ''Valid 'query' string required'')), FlushHeaders, Status 400, End]"
  by (auto simp: chat_def blankQuery_def reject_def streamEvent_def trim_Nil_iff
      split: option.splits json.splits)

text \<open>
  C8. For every query that is missing, not a string, empty or of white space only, the
  handler writes one \<open>error\<close> event and closes the stream, and calls neither the
  completion client nor the search client.
\<close>

theorem chat_rejects_blank:
  "blankQuery (bodyQuery body) \<Longrightarrow>
   emitted (chat pf cfg post get clock body) = [event Error (js ''Valid 'query' string required'')]
   \<and> closes (chat pf cfg post get clock body) = 1
   \<and> last (chat pf cfg post get clock body) = End
   \<and> list_ex isClientCall (chat pf cfg post get clock body) = False"
  by (simp add: chat_blank emitted_Cons closes_call)

text \<open>
  C8 at a body whose query is three spaces, at a request without a body and at a body
  whose query is the number 5.
\<close>

theorem chat_rejects_blank_witness:
  "blankQuery (bodyQuery (queryBody (js ''   ''))) \<and> blankQuery (bodyQuery None)
   \<and> blankQuery (bodyQuery (Some (JObject [(js ''query'', JNumber 5)])))
   \<and> emitted (chat plainPlatform liveConfig (answering (js ''true'')) unreachable stoppedClock
        (queryBody (js ''   ''))) = [event Error (js ''Valid 'query' string required'')]
   \<and> list_ex isClientCall (chat plainPlatform liveConfig (answering (js ''true'')) unreachable
        stoppedClock (queryBody (js ''   ''))) = False
   \<and> closes (chat plainPlatform liveConfig (answering (js ''true'')) unreachable stoppedClock None) = 1
   \<and> list_ex isClientCall (chat plainPlatform liveConfig (answering (js ''true'')) unreachable
        stoppedClock (Some (JObject [(js ''query'', JNumber 5)]))) = False"
proof -
  have a: "blankQuery (bodyQuery (queryBody (js ''   '')))"
    by (simp add: blankQuery_def bodyQuery_def queryBody_def isSpace_def js_def)
  have b: "blankQuery (bodyQuery None)"
    by (simp add: blankQuery_def bodyQuery_def)
  have c: "blankQuery (bodyQuery (Some (JObject [(js ''query'', JNumber 5)])))"
    by (simp add: blankQuery_def bodyQuery_def)
  from chat_rejects_blank [OF a] chat_rejects_blank [OF b] chat_rejects_blank [OF c] a b c
  show ?thesis by simp
qed

lemma emitted_synthesize:
  "emitted (fst (synthesize pf post clock q ns txt)) =
     event Reasoning (js ''Refining answer...'')
     # (case callGemini post (finalPrompt (isoDate pf (clock 2)) q ns txt) of
          Inl err \<Rightarrow> []
        | Inr answer \<Rightarrow>
            [event Response (or_else (Some answer) (js ''(no answer generated)'')),
             event Reasoning (js ''Completed in '' @ numberToString (clock 3 - clock 0) @ js ''ms''),
             \<lparr>type = Done, content = None, tool = None, input = None, output_val = None\<rparr>])"
  by (simp add: synthesize_def Let_def emitted_append emitted_streamEvent emitted_Cons
      split: sum.splits)

lemma thrown_synthesize:
  "snd (synthesize pf post clock q ns txt) =
     (case callGemini post (finalPrompt (isoDate pf (clock 2)) q ns txt) of
        Inl err \<Rightarrow> Some err
      | Inr answer \<Rightarrow> None)"
  by (simp add: synthesize_def Let_def split: sum.splits)

text \<open>
  The events of a request with a valid query whose decision call returns a text that
  \<open>parseDecision\<close> rejects.
\<close>

lemma chat_no_search_events:
  assumes "bodyQuery body = Some (JString q)"
    and "trim q \<noteq> []"
    and "decisionCall pf post clock (trim q) = Inr raw"
    and "\<not> parseDecision raw"
  shows "emitted (chat pf cfg post get clock body) =
     [event Reasoning (js ''Received: \"'' @ trim q @ js ''\"''),
      event Reasoning (js ''Deciding if tool needed...''),
      event Reasoning (js ''Internal knowledge sufficient.''),
      event Reasoning (js ''Refining answer...'')]
     @ (case plainSynthesisCall pf post clock (trim q) of
          Inr answer \<Rightarrow>
            [event Response (or_else (Some answer) (js ''(no answer generated)'')),
             event Reasoning (js ''Completed in '' @ numberToString (clock 3 - clock 0) @ js ''ms''),
             \<lparr>type = Done, content = None, tool = None, input = None, output_val = None\<rparr>]
        | Inl err \<Rightarrow> [event Error (js ''Agent error: '' @ message err)])"
proof -
  have t: "tryBlock pf cfg post get clock (trim q) =
      (streamEvent (event Reasoning (js ''Received: \"'' @ trim q @ js ''\"''))
       @ streamEvent (event Reasoning (js ''Deciding if tool needed...''))
       @ [CallGemini (decisionPrompt (isoDate pf (clock 1 - 6 * 30 * 24 * 60 * 60 * 1000)) (trim q))]
       @ streamEvent (event Reasoning (js ''Internal knowledge sufficient.''))
       @ fst (synthesize pf post clock (trim q) False []),
       snd (synthesize pf post clock (trim q) False []))"
    using assms(3,4) by (simp add: tryBlock_def decisionCall_def Let_def case_prod_beta)
  show ?thesis
    using assms(1,2)
    by (simp add: chat_def t emitted_append emitted_streamEvent emitted_Cons emitted_synthesize
        thrown_synthesize plainSynthesisCall_def split: sum.splits)
qed

lemma withRetry_default_first:
  "fn 0 = Inr v \<Longrightarrow> withRetry_default fn = \<lparr>outcome = Inr v, delays = [], calls = 1\<rparr>"
  using withRetry_succeeds [of 0 3 fn v] by (simp add: withRetry_default_def backoff_def)

lemma callGemini_answering: "t \<noteq> [] \<Longrightarrow> callGemini (answering t) prompt = Inr (trim t)"
proof -
  assume "t \<noteq> []"
  moreover have "withRetry_default (answering t prompt) =
      \<lparr>outcome = Inr \<lparr>first_text = Some t\<rparr>, delays = [], calls = 1\<rparr>"
    by (rule withRetry_default_first) (simp add: answering_def)
  ultimately show ?thesis by (simp add: callGemini_def)
qed

lemma trim_examples:
  "trim (js ''true'') = js ''true''" "trim (js ''false'') = js ''false''"
  "trim (js ''What is 2+2?'') = js ''What is 2+2?''" "trim [0xD800] = [0xD800]"
  by (simp_all add: trim_def isSpace_def js_def)

lemma parseDecision_examples: "parseDecision (js ''true'')" "\<not> parseDecision (js ''false'')"
  by (simp_all add: parseDecision_def trim_def toLowerCase_def lowerUnit_def isSpace_def js_def)

lemma bodyQuery_queryBody: "bodyQuery (queryBody q) = Some (JString q)"
  by (simp add: bodyQuery_def queryBody_def)

text \<open>The run of scenario A: the query \<open>What is 2+2?\<close> and a service that answers \<open>false\<close>.\<close>

lemma scenario_A:
  "emitted (chat plainPlatform liveConfig (answering (js ''false'')) unreachable stoppedClock
      (queryBody (js ''What is 2+2?''))) =
     [event Reasoning (js ''Received: \"What is 2+2?\"''),
      event Reasoning (js ''Deciding if tool needed...''),
      event Reasoning (js ''Internal knowledge sufficient.''),
      event Reasoning (js ''Refining answer...''),
      event Response (js ''false''),
      event Reasoning (js ''Completed in 0ms''),
      \<lparr>type = Done, content = None, tool = None, input = None, output_val = None\<rparr>]"
proof -
  have n: "js ''false'' \<noteq> []" "js ''What is 2+2?'' \<noteq> []" by (simp_all add: js_def)
  have d: "decisionCall plainPlatform (answering (js ''false'')) stoppedClock
             (trim (js ''What is 2+2?'')) = Inr (js ''false'')"
    by (simp add: decisionCall_def callGemini_answering n trim_examples)
  have s: "plainSynthesisCall plainPlatform (answering (js ''false'')) stoppedClock
             (trim (js ''What is 2+2?'')) = Inr (js ''false'')"
    by (simp add: plainSynthesisCall_def callGemini_answering n trim_examples)
  have t: "trim (js ''What is 2+2?'') \<noteq> []" by (simp add: trim_examples n)
  have z: "numberToString (stoppedClock 3 - stoppedClock 0) = js ''0''"
    by (simp add: numberToString_def stoppedClock_def decimal.simps js_def)
  have o: "or_else (Some (js ''false'')) (js ''(no answer generated)'') = js ''false''"
    by (simp add: or_else_def n)
  show ?thesis
    unfolding chat_no_search_events [OF bodyQuery_queryBody t d parseDecision_examples(2)] s
    by (simp add: z o trim_examples) (simp add: js_def)
qed

text \<open>
  C2, amended. For every request whose query is valid and whose decision call returns a
  text that \<open>parseDecision\<close> rejects, the events are, in this order and with nothing in
  between: the acknowledgement of the query, \<open>Deciding if tool needed...\<close>, the decision
  outcome \<open>Internal knowledge sufficient.\<close> and \<open>Refining answer...\<close>, all of kind
  \<open>reasoning\<close>; then, when the synthesis call returns, the \<open>response\<close> event, the
  \<open>reasoning\<close> event with the elapsed time and the \<open>done\<close> event, and when it fails, one
  \<open>error\<close> event. There is no \<open>tool_call\<close> event.
\<close>

theorem chat_decision_false:
  assumes "bodyQuery body = Some (JString q)"
    and "trim q \<noteq> []"
    and "decisionCall pf post clock (trim q) = Inr raw"
    and "\<not> parseDecision raw"
  shows "emitted (chat pf cfg post get clock body) =
     [event Reasoning (js ''Received: \"'' @ trim q @ js ''\"''),
      event Reasoning (js ''Deciding if tool needed...''),
      event Reasoning (js ''Internal knowledge sufficient.''),
      event Reasoning (js ''Refining answer...'')]
     @ (case plainSynthesisCall pf post clock (trim q) of
          Inr answer \<Rightarrow>
            [event Response (or_else (Some answer) (js ''(no answer generated)'')),
             event Reasoning (js ''Completed in '' @ numberToString (clock 3 - clock 0) @ js ''ms''),
             \<lparr>type = Done, content = None, tool = None, input = None, output_val = None\<rparr>]
        | Inl err \<Rightarrow> [event Error (js ''Agent error: '' @ message err)])
   \<and> toolCalls (chat pf cfg post get clock body) = 0"
proof -
  have "toolCalls (chat pf cfg post get clock body) = 0"
    using assms by (simp add: chat_toolCalls tryBlock_toolCalls)
  with chat_no_search_events [OF assms] show ?thesis by blast
qed

text \<open>C2, amended, at the run of scenario A.\<close>

theorem chat_decision_false_witness:
  "bodyQuery (queryBody (js ''What is 2+2?'')) = Some (JString (js ''What is 2+2?''))
   \<and> trim (js ''What is 2+2?'') \<noteq> []
   \<and> decisionCall plainPlatform (answering (js ''false'')) stoppedClock
        (trim (js ''What is 2+2?'')) = Inr (js ''false'')
   \<and> parseDecision (js ''false'') = False
   \<and> map type (emitted (chat plainPlatform liveConfig (answering (js ''false'')) unreachable
        stoppedClock (queryBody (js ''What is 2+2?'')))) =
       [Reasoning, Reasoning, Reasoning, Reasoning, Response, Reasoning, Done]
   \<and> toolCalls (chat plainPlatform liveConfig (answering (js ''false'')) unreachable
        stoppedClock (queryBody (js ''What is 2+2?''))) = 0"
proof -
  have n: "js ''false'' \<noteq> []" "js ''What is 2+2?'' \<noteq> []" by (simp_all add: js_def)
  have t: "trim (js ''What is 2+2?'') \<noteq> []" by (simp add: trim_examples n)
  have d: "decisionCall plainPlatform (answering (js ''false'')) stoppedClock
             (trim (js ''What is 2+2?'')) = Inr (js ''false'')"
    by (simp add: decisionCall_def callGemini_answering n trim_examples)
  have s: "plainSynthesisCall plainPlatform (answering (js ''false'')) stoppedClock
             (trim (js ''What is 2+2?'')) = Inr (js ''false'')"
    by (simp add: plainSynthesisCall_def callGemini_answering n trim_examples)
  from chat_decision_false [OF bodyQuery_queryBody t d parseDecision_examples(2),
      of liveConfig unreachable]
  show ?thesis
    unfolding s using t d parseDecision_examples(2)
    by (simp add: bodyQuery_queryBody event_def)
qed

text \<open>
  C2, as the claim states it, fails at the run of scenario A: seven events are written,
  not six, and the second one, \<open>Deciding if tool needed...\<close> (line 86), stands between the
  acknowledgement and the decision outcome.
\<close>

theorem chat_decision_false_counterexample:
  "decisionCall plainPlatform (answering (js ''false'')) stoppedClock
        (trim (js ''What is 2+2?'')) = Inr (js ''false'')
   \<and> parseDecision (js ''false'') = False
   \<and> map type (emitted (chat plainPlatform liveConfig (answering (js ''false'')) unreachable
        stoppedClock (queryBody (js ''What is 2+2?'')))) =
       [Reasoning, Reasoning, Reasoning, Reasoning, Response, Reasoning, Done]
   \<and> map type (emitted (chat plainPlatform liveConfig (answering (js ''false'')) unreachable
        stoppedClock (queryBody (js ''What is 2+2?'')))) \<noteq>
       [Reasoning, Reasoning, Reasoning, Response, Reasoning, Done]
   \<and> emitted (chat plainPlatform liveConfig (answering (js ''false'')) unreachable
        stoppedClock (queryBody (js ''What is 2+2?''))) ! 1 =
       event Reasoning (js ''Deciding if tool needed...'')"
proof -
  have n: "js ''false'' \<noteq> []" by (simp add: js_def)
  have d: "decisionCall plainPlatform (answering (js ''false'')) stoppedClock
             (trim (js ''What is 2+2?'')) = Inr (js ''false'')"
    by (simp add: decisionCall_def callGemini_answering n trim_examples)
  show ?thesis
    unfolding scenario_A using d parseDecision_examples(2) by (simp add: event_def)
qed

text \<open>
  The run with the query \<open>"\uD800"\<close>, a single high surrogate, and a service that answers
  \<open>true\<close>.
\<close>

lemma tryBlock_lone_surrogate:
  "tryBlock pf cfg (answering (js ''true'')) get clock [0xD800] =
     (streamEvent (event Reasoning (js ''Received: \"'' @ [0xD800] @ js ''\"''))
      @ streamEvent (event Reasoning (js ''Deciding if tool needed...''))
      @ [CallGemini (decisionPrompt (isoDate pf (clock 1 - 6 * 30 * 24 * 60 * 60 * 1000)) [0xD800])]
      @ streamEvent (event Reasoning (js ''Tool call required for fresh data.''))
      @ streamEvent (event Reasoning (js ''Searching the web'' @ [0x2026]))
      @ [CallWebSearch [0xD800]],
      Some URIError)"
proof -
  have n: "js ''true'' \<noteq> []" by (simp add: js_def)
  have w: "webSearch pf cfg get [0xD800] = Inl URIError"
    by (simp add: webSearch_def encode_lone_surrogate)
  show ?thesis
    by (simp add: tryBlock_def Let_def callGemini_answering n trim_examples
        parseDecision_examples toolCall_def w)
qed

text \<open>
  C1. One \<open>tool_call\<close> event is to be written when the decision is true. At the query
  \<open>"\uD800"\<close> with a service that answers \<open>true\<close> the decision is true and no \<open>tool_call\<close>
  event is written: \<open>webSearch\<close> throws, and the \<open>catch\<close> block writes an \<open>error\<close> event
  in its place. (What C1 says besides holds on every request: at most one \<open>tool_call\<close>
  event, \<open>chat_toolCalls_le_1\<close>, none without a true decision, \<open>tryBlock_toolCalls\<close>, and
  one close of the stream, \<open>chat_closes_once\<close>.)
\<close>

theorem chat_lone_surrogate:
  "decisionCall pf (answering (js ''true'')) clock [0xD800] = Inr (js ''true'')
   \<and> parseDecision (js ''true'') = True
   \<and> toolCalls (chat pf cfg (answering (js ''true'')) get clock (queryBody [0xD800])) = 0
   \<and> emitted (chat pf cfg (answering (js ''true'')) get clock (queryBody [0xD800])) =
       [event Reasoning (js ''Received: \"'' @ [0xD800] @ js ''\"''),
        event Reasoning (js ''Deciding if tool needed...''),
        event Reasoning (js ''Tool call required for fresh data.''),
        event Reasoning (js ''Searching the web'' @ [0x2026]),
        event Error (js ''Agent error: URI malformed'')]"
proof -
  have n: "js ''true'' \<noteq> []" by (simp add: js_def)
  have d: "decisionCall pf (answering (js ''true'')) clock [0xD800] = Inr (js ''true'')"
    by (simp add: decisionCall_def callGemini_answering n trim_examples)
  have m: "js ''Agent error: '' @ message URIError = js ''Agent error: URI malformed''"
    by (simp add: URIError_def newError_def js_def)
  have e: "emitted (chat pf cfg (answering (js ''true'')) get clock (queryBody [0xD800])) =
       [event Reasoning (js ''Received: \"'' @ [0xD800] @ js ''\"''),
        event Reasoning (js ''Deciding if tool needed...''),
        event Reasoning (js ''Tool call required for fresh data.''),
        event Reasoning (js ''Searching the web'' @ [0x2026]),
        event Error (js ''Agent error: URI malformed'')]"
    by (simp add: chat_def bodyQuery_queryBody trim_examples tryBlock_lone_surrogate
        emitted_append emitted_streamEvent emitted_Cons m)
  have "toolCalls (chat pf cfg (answering (js ''true'')) get clock (queryBody [0xD800])) = 0"
    by (simp add: toolCalls_def e event_def)
  with d e parseDecision_examples(1) show ?thesis by simp
qed

end
